theory Spec2Isabelle
  imports Main
begin

chapter \<open>The model\<close>

section \<open>Data model shared by the RPC components\<close>

text \<open>
  A Go \<^verbatim>\<open>string\<close> and a Go \<^verbatim>\<open>[]byte\<close> are both sequences of 8-bit bytes, and the
  conversions \<^verbatim>\<open>[]byte(s)\<close> and \<^verbatim>\<open>string(b)\<close> keep the sequence. An Isabelle
  \<^typ>\<open>char\<close> is one byte, so both are modelled as \<^typ>\<open>string\<close>, and \<^verbatim>\<open>len\<close> is
  \<^const>\<open>length\<close>.
\<close>

type_synonym bytes = string

text \<open>
  Modelled from the spec: the \<^verbatim>\<open>Request\<close> and \<^verbatim>\<open>Response\<close> structs and the operation
  constants \<^verbatim>\<open>OpPing\<close>, \<^verbatim>\<open>OpHealth\<close>, \<^verbatim>\<open>OpMetrics\<close> are declared in a file of the
  package that is not part of the sources at hand. Their fields are the ones the spec's
  data model lists and the code reads (\<^verbatim>\<open>req.Operation\<close>, \<^verbatim>\<open>req.Args\<close>, ...);
  \<^verbatim>\<open>Timestamp\<close> is a signed 64-bit count of unix seconds, read here as an \<^typ>\<open>int\<close>.
\<close>

record Request =
  Operation :: string
  Args :: bytes
  Actor :: string
  Cwd :: string
  ExpectedDB :: string
  RequestID :: string
  AuthToken :: string
  Signature :: string
  Timestamp :: int

record Response =
  Success :: bool
  Error :: string
  Data :: bytes

definition OpPing :: string where
  "OpPing = ''ping''"

definition OpHealth :: string where
  "OpHealth = ''health''"

definition OpMetrics :: string where
  "OpMetrics = ''metrics''"

section \<open>Library functions the code calls\<close>

text \<open>
  The code calls Go's standard library for hashing, message authentication, authenticated
  encryption, time formatting and path manipulation. These are not code of the
  repository; the model takes them as the fields of one record, so every definition that
  depends on one of them has the record as its first argument and every theorem holds
  for whatever functions are supplied (under the stated contract, where one is needed).
  \<^item> \<open>sha256_sum m\<close>: the SHA-256 digest of the message \<open>m\<close>;
  \<^item> \<open>hmac_sha256 k m\<close>: HMAC-SHA256 of \<open>m\<close> under key \<open>k\<close>;
  \<^item> \<open>gcm_seal k n p\<close>: AES-GCM sealing of plaintext \<open>p\<close> under key \<open>k\<close> and nonce \<open>n\<close>
    with no additional data (ciphertext followed by the tag);
  \<^item> \<open>gcm_open k n c\<close>: the matching opening, \<open>None\<close> when authentication fails;
  \<^item> \<open>formatRFC3339Nano t\<close>: \<^verbatim>\<open>t.Format(time.RFC3339Nano)\<close>;
  \<^item> \<open>filepathDir\<close>, \<open>filepathJoin\<close>: \<^verbatim>\<open>filepath.Dir\<close> and \<^verbatim>\<open>filepath.Join\<close> of two elements.
\<close>

text \<open>
  A \<^verbatim>\<open>time.Time\<close> is modelled as the number of nanoseconds since the unix epoch and a
  \<^verbatim>\<open>time.Duration\<close> as a number of nanoseconds, both unbounded integers (Go saturates
  durations beyond about 292 years; no operation here comes near).
\<close>

type_synonym Time = int
type_synonym Duration = int

record Lib =
  sha256_sum :: "bytes \<Rightarrow> bytes"
  hmac_sha256 :: "bytes \<Rightarrow> bytes \<Rightarrow> bytes"
  gcm_seal :: "bytes \<Rightarrow> bytes \<Rightarrow> bytes \<Rightarrow> bytes"
  gcm_open :: "bytes \<Rightarrow> bytes \<Rightarrow> bytes \<Rightarrow> bytes option"
  formatRFC3339Nano :: "Time \<Rightarrow> string"
  filepathDir :: "string \<Rightarrow> string"
  filepathJoin :: "string \<Rightarrow> string \<Rightarrow> string"

definition Second :: Duration where
  "Second = 1000000000"

definition Minute :: Duration where
  "Minute = 60 * Second"

text \<open>\<^verbatim>\<open>t.Unix()\<close>: whole seconds since the epoch, rounded down.\<close>

definition Unix :: "Time \<Rightarrow> int" where
  "Unix t = t div Second"

text \<open>\<^verbatim>\<open>time.Unix(sec, nsec)\<close>.\<close>

definition time_Unix :: "int \<Rightarrow> int \<Rightarrow> Time" where
  "time_Unix sec nsec = sec * Second + nsec"

text \<open>
  \<^verbatim>\<open>hmac.Equal(a, b)\<close> compares in constant time and is true exactly for equal byte
  sequences (sequences of different length are unequal).
\<close>

definition hmac_Equal :: "bytes \<Rightarrow> bytes \<Rightarrow> bool" where
  "hmac_Equal a b = (a = b)"

text \<open>
  The random source \<^verbatim>\<open>crypto/rand\<close>: either it fails (\<open>None\<close>) or it delivers a stream of
  bytes, of which a read of \<open>n\<close> bytes takes the first \<open>n\<close>. A read into a buffer
  \<^verbatim>\<open>make([]byte, n)\<close> therefore yields exactly \<open>n\<close> bytes when it succeeds.
\<close>

type_synonym Rand = "(nat \<Rightarrow> char) option"

definition rand_Read :: "Rand \<Rightarrow> nat \<Rightarrow> bytes option" where
  "rand_Read r n = (case r of None \<Rightarrow> None | Some f \<Rightarrow> Some (map f [0..<n]))"

subsection \<open>Formatting\<close>

text \<open>\<^verbatim>\<open>hex.EncodeToString\<close>: two lowercase hexadecimal digits per byte.\<close>

definition hexdigit :: "nat \<Rightarrow> char" where
  "hexdigit d = ''0123456789abcdef'' ! d"

fun hex_EncodeToString :: "bytes \<Rightarrow> string" where
  "hex_EncodeToString [] = []"
| "hex_EncodeToString (b # bs) =
     hexdigit (of_char b div 16) # hexdigit (of_char b mod 16) # hex_EncodeToString bs"

text \<open>The verb \<^verbatim>\<open>%d\<close> of \<^verbatim>\<open>fmt.Sprintf\<close> on an integer: decimal digits, a leading minus sign
  for a negative number.\<close>

definition digit :: "nat \<Rightarrow> char" where
  "digit d = ''0123456789'' ! d"

function dec_nat :: "nat \<Rightarrow> string" where
  "dec_nat n = (if n < 10 then [digit n] else dec_nat (n div 10) @ [digit (n mod 10)])"
  by pat_completeness auto
termination
  by (relation "measure id") auto

declare dec_nat.simps [simp del]

definition fmt_d :: "int \<Rightarrow> string" where
  "fmt_d i = (if i < 0 then CHR ''-'' # dec_nat (nat (- i)) else dec_nat (nat i))"

text \<open>Reading a decimal rendering back, used to show that \<open>fmt_d\<close> loses nothing.\<close>

definition digit_val :: "char \<Rightarrow> nat" where
  "digit_val c = of_char c - 48"

definition val_of :: "string \<Rightarrow> nat" where
  "val_of s = foldl (\<lambda>a c. 10 * a + digit_val c) 0 s"

section \<open>Signer (request signing)\<close>

record RequestSigner =
  signerKey :: bytes

definition NewRequestSigner :: "bytes \<Rightarrow> RequestSigner" where
  "NewRequestSigner secretKey = \<lparr>signerKey = secretKey\<rparr>"

text \<open>The local variable \<^verbatim>\<open>payload\<close> of \<^verbatim>\<open>SignRequest\<close>:
  \<^verbatim>\<open>fmt.Sprintf("%s|%s|%d|%s|%s", req.Operation, string(req.Args), timestamp.Unix(), req.Actor, req.Cwd)\<close>.\<close>

definition requestPayload :: "Request \<Rightarrow> Time \<Rightarrow> string" where
  "requestPayload req timestamp =
     Operation req @ ''|'' @ Args req @ ''|'' @ fmt_d (Unix timestamp) @ ''|'' @ Actor req
       @ ''|'' @ Cwd req"

definition SignRequest :: "Lib \<Rightarrow> RequestSigner \<Rightarrow> Request \<Rightarrow> Time \<Rightarrow> string" where
  "SignRequest L rs req timestamp =
     hex_EncodeToString (hmac_sha256 L (signerKey rs) (requestPayload req timestamp))"

datatype verify_error = InvalidRequestSignature

definition VerifyRequest ::
  "Lib \<Rightarrow> RequestSigner \<Rightarrow> Request \<Rightarrow> Time \<Rightarrow> string \<Rightarrow> verify_error option" where
  "VerifyRequest L rs req timestamp signature =
     (let expectedSignature = SignRequest L rs req timestamp in
      if \<not> hmac_Equal signature expectedSignature then Some InvalidRequestSignature
      else None)"

section \<open>SizeGuard (internal/rpc/size\_limits.go)\<close>

definition MaxRequestSize :: int where
  "MaxRequestSize = 10 * 1024 * 1024"

definition MaxResponseSize :: int where
  "MaxResponseSize = 50 * 1024 * 1024"

text \<open>The two error returns of \<^verbatim>\<open>ValidateRequestSize\<close> carry the offending size.\<close>

datatype size_error =
    PayloadTooLarge int
  | RequestTooLarge int
  | ResponseTooLarge int

definition ValidateRequestSize :: "Request \<Rightarrow> size_error option" where
  "ValidateRequestSize req =
     (let argsSize = int (length (Args req)) in
      if argsSize > MaxRequestSize then Some (PayloadTooLarge argsSize)
      else
        let totalSize = argsSize + int (length (Operation req)) + int (length (Actor req))
                        + int (length (Cwd req)) + int (length (ExpectedDB req)) in
        if totalSize > MaxRequestSize then Some (RequestTooLarge totalSize)
        else None)"

definition ValidateResponseSize :: "Response \<Rightarrow> size_error option" where
  "ValidateResponseSize resp =
     (let dataSize = int (length (Data resp)) in
      if dataSize > MaxResponseSize then Some (ResponseTooLarge dataSize) else None)"

section \<open>File system\<close>

text \<open>
  The part of the file system the code touches: the regular files, each with its content
  and permission bits, and the set of paths at which creating or writing fails (a missing
  or read-only directory, for instance). \<^verbatim>\<open>os.ReadFile\<close> fails on a path that holds no
  file. \<^verbatim>\<open>os.WriteFile(name, data, perm)\<close> replaces the content of an existing file and
  keeps its permission bits, or creates the file with \<open>perm\<close>. \<^verbatim>\<open>os.Remove\<close> deletes.
\<close>

record FileSystem =
  files :: "string \<rightharpoonup> (bytes \<times> nat)"
  denied :: "string set"

datatype fs_error = ErrNotExist | ErrPermission

definition os_ReadFile :: "FileSystem \<Rightarrow> string \<Rightarrow> fs_error + bytes" where
  "os_ReadFile fs name = (case files fs name of None \<Rightarrow> Inl ErrNotExist | Some (d, _) \<Rightarrow> Inr d)"

definition os_WriteFile :: "FileSystem \<Rightarrow> string \<Rightarrow> bytes \<Rightarrow> nat \<Rightarrow> fs_error + FileSystem" where
  "os_WriteFile fs name data perm =
     (if name \<in> denied fs then Inl ErrPermission
      else Inr (fs\<lparr>files := (files fs)(name \<mapsto>
             (data, case files fs name of None \<Rightarrow> perm | Some (_, m) \<Rightarrow> m))\<rparr>))"

definition os_MkdirAll :: "FileSystem \<Rightarrow> string \<Rightarrow> nat \<Rightarrow> fs_error + FileSystem" where
  "os_MkdirAll fs path perm = (if path \<in> denied fs then Inl ErrPermission else Inr fs)"

definition os_Remove :: "FileSystem \<Rightarrow> string \<Rightarrow> fs_error + FileSystem" where
  "os_Remove fs name =
     (case files fs name of
        None \<Rightarrow> Inl ErrNotExist
      | Some _ \<Rightarrow> Inr (fs\<lparr>files := (files fs)(name := None)\<rparr>))"

text \<open>The permission bits \<^verbatim>\<open>0600\<close> and \<^verbatim>\<open>0700\<close> (octal).\<close>

definition perm_0600 :: nat where
  "perm_0600 = 384"

definition perm_0700 :: nat where
  "perm_0700 = 448"

section \<open>AuthManager (internal/rpc/auth.go)\<close>

record AuthManager =
  secretKey :: bytes
  token :: string
  tokenFile :: string
  startTime :: Time
  socketPath :: string
  signer :: "RequestSigner option"

datatype auth_init_error =
    ErrGenerateSecret
  | ErrWriteSecret fs_error
  | ErrWriteToken fs_error
  | PanicSliceBounds

text \<open>
  \<^verbatim>\<open>loadOrGenerateSecret\<close>: the secret is read from \<^verbatim>\<open>am.tokenFile\<close> when that file can be
  read; otherwise 32 random bytes are drawn and written to \<^verbatim>\<open>am.tokenFile\<close>.
\<close>

definition loadOrGenerateSecret ::
  "AuthManager \<Rightarrow> Rand \<Rightarrow> FileSystem \<Rightarrow> auth_init_error + (AuthManager \<times> FileSystem)" where
  "loadOrGenerateSecret am rnd fs =
     (case os_ReadFile fs (tokenFile am) of
        Inr data \<Rightarrow> Inr (am\<lparr>secretKey := data\<rparr>, fs)
      | Inl _ \<Rightarrow>
          (case rand_Read rnd 32 of
             None \<Rightarrow> Inl ErrGenerateSecret
           | Some secret \<Rightarrow>
               let am' = am\<lparr>secretKey := secret\<rparr> in
               (case os_WriteFile fs (tokenFile am') (secretKey am') perm_0600 of
                  Inl e \<Rightarrow> Inl (ErrWriteSecret e)
                | Inr fs' \<Rightarrow> Inr (am', fs'))))"

text \<open>
  \<^verbatim>\<open>generateToken\<close>: the first 32 characters of the hexadecimal HMAC of socket path and
  formatted start time. The slice expression \<^verbatim>\<open>[:32]\<close> panics on a shorter string (the
  real HMAC-SHA256 always gives 64 hexadecimal characters).
\<close>

definition generateToken :: "Lib \<Rightarrow> AuthManager \<Rightarrow> string option" where
  "generateToken L am =
     (let h = hex_EncodeToString
                (hmac_sha256 L (secretKey am) (socketPath am @ formatRFC3339Nano L (startTime am)))
      in if length h < 32 then None else Some (take 32 h))"

text \<open>\<^verbatim>\<open>saveToken\<close> writes the token to \<^verbatim>\<open>am.tokenFile\<close>.\<close>

definition saveToken :: "AuthManager \<Rightarrow> FileSystem \<Rightarrow> auth_init_error + FileSystem" where
  "saveToken am fs =
     (case os_WriteFile fs (tokenFile am) (token am) perm_0600 of
        Inl e \<Rightarrow> Inl (ErrWriteToken e)
      | Inr fs' \<Rightarrow> Inr fs')"

definition NewAuthManager ::
  "Lib \<Rightarrow> string \<Rightarrow> Time \<Rightarrow> Rand \<Rightarrow> FileSystem \<Rightarrow> auth_init_error + (AuthManager \<times> FileSystem)" where
  "NewAuthManager L sockPath start rnd fs =
     (let am = \<lparr>secretKey = [], token = [],
                tokenFile = filepathJoin L (filepathDir L sockPath) ''daemon-auth-token'',
                startTime = start, socketPath = sockPath, signer = None\<rparr>
      in case loadOrGenerateSecret am rnd fs of
           Inl e \<Rightarrow> Inl e
         | Inr (am1, fs1) \<Rightarrow>
             (case generateToken L am1 of
                None \<Rightarrow> Inl PanicSliceBounds
              | Some tok \<Rightarrow>
                  let am2 = am1\<lparr>token := tok\<rparr> in
                  (case saveToken am2 fs1 of
                     Inl e \<Rightarrow> Inl e
                   | Inr fs2 \<Rightarrow>
                       Inr (am2\<lparr>signer := Some (NewRequestSigner (secretKey am2))\<rparr>, fs2))))"

definition GetToken :: "AuthManager \<Rightarrow> string" where
  "GetToken am = token am"

definition GetSecretKey :: "AuthManager \<Rightarrow> bytes" where
  "GetSecretKey am = secretKey am"

definition ValidateToken :: "AuthManager \<Rightarrow> string \<Rightarrow> bool" where
  "ValidateToken am tok = hmac_Equal (token am) tok"

definition Cleanup :: "AuthManager \<Rightarrow> FileSystem \<Rightarrow> fs_error + FileSystem" where
  "Cleanup am fs = os_Remove fs (tokenFile am)"

datatype auth_error =
    AuthMissing
  | AuthInvalid
  | SignatureFailed verify_error
  | PanicNilSigner

text \<open>
  \<^verbatim>\<open>am.VerifyRequest\<close> forwards to the signer; calling it on a manager whose signer was
  never set dereferences nil. A manager returned by \<open>NewAuthManager\<close> always has one.
\<close>

definition ValidateRequestAuth :: "Lib \<Rightarrow> AuthManager \<Rightarrow> Request \<Rightarrow> auth_error option" where
  "ValidateRequestAuth L am req =
     (if Operation req = OpPing \<or> Operation req = OpHealth \<or> Operation req = OpMetrics
      then None
      else if AuthToken req = [] then Some AuthMissing
      else if \<not> ValidateToken am (AuthToken req) then Some AuthInvalid
      else if Timestamp req > 0 \<and> Signature req \<noteq> [] then
        (let timestamp = time_Unix (Timestamp req) 0 in
         case signer am of
           None \<Rightarrow> Some PanicNilSigner
         | Some rs \<Rightarrow>
             (case VerifyRequest L rs req timestamp (Signature req) of
                Some err \<Rightarrow> Some (SignatureFailed err)
              | None \<Rightarrow> None))
      else None)"

section \<open>A concrete instance of the library record\<close>

text \<open>
  The theorems below hold for every value of the library record. Where a closed instance
  is evaluated, the following stand-ins are used. They are not cryptography: the digest
  is the reversed message cut or zero-padded to 32 bytes, the MAC is the digest of key
  and message, and sealing appends the nonce as a tag that opening checks.
\<close>

definition pad32 :: "bytes \<Rightarrow> bytes" where
  "pad32 m = take 32 (m @ replicate 32 (CHR 0x00))"

definition demo_open :: "bytes \<Rightarrow> bytes \<Rightarrow> bytes \<Rightarrow> bytes option" where
  "demo_open k n c =
     (if length n \<le> length c \<and> drop (length c - length n) c = n
      then Some (take (length c - length n) c) else None)"

definition demo_lib :: Lib where
  "demo_lib = \<lparr>sha256_sum = (\<lambda>m. pad32 (rev m)),
               hmac_sha256 = (\<lambda>k m. pad32 (rev (k @ m))),
               gcm_seal = (\<lambda>k n p. p @ n),
               gcm_open = demo_open,
               formatRFC3339Nano = fmt_d,
               filepathDir = (\<lambda>p. rev (tl (dropWhile (\<lambda>c. c \<noteq> CHR ''/'') (rev p)))),
               filepathJoin = (\<lambda>d f. d @ ''/'' @ f)\<rparr>"

section \<open>RateLimiter\<close>

text \<open>
  The limiter's map is the field \<^verbatim>\<open>requests\<close> of \<^verbatim>\<open>RateLimiter\<close> in the source; it is
  called \<open>clients\<close> here because \<^verbatim>\<open>clientState\<close> has a field of the same name. The
  current time, which the source reads with \<^verbatim>\<open>time.Now()\<close>, is an argument. Every
  operation runs with the limiter's mutex held from its first read to its last write, so
  each is one atomic step from a limiter state to the next; concurrent calls are some
  sequence of such steps.
\<close>

record clientState =
  requests :: "Time list"
  lastSeen :: Time

record RateLimiter =
  clients :: "string \<rightharpoonup> clientState"
  maxRequests :: int
  windowDuration :: Duration
  cleanupInterval :: Duration
  lastCleanup :: Time

datatype rl_panic = PanicMakeslice

definition NewRateLimiter :: "int \<Rightarrow> Duration \<Rightarrow> Time \<Rightarrow> RateLimiter" where
  "NewRateLimiter maxReq window now =
     \<lparr>clients = Map.empty, maxRequests = maxReq, windowDuration = window,
      cleanupInterval = 5 * Minute, lastCleanup = now\<rparr>"

text \<open>\<^verbatim>\<open>cleanup\<close> deletes every client whose \<^verbatim>\<open>lastSeen\<close> is before \<^verbatim>\<open>now - cleanupInterval\<close>.\<close>

definition cleanup :: "RateLimiter \<Rightarrow> Time \<Rightarrow> RateLimiter" where
  "cleanup rl now =
     (let staleThreshold = now - cleanupInterval rl in
      rl\<lparr>clients := (\<lambda>clientID.
            case clients rl clientID of
              None \<Rightarrow> None
            | Some state \<Rightarrow> if lastSeen state < staleThreshold then None else Some state)\<rparr>)"

text \<open>One round of \<^verbatim>\<open>cleanupLoop\<close>, when the ticker fires at time \<open>now\<close>.\<close>

definition cleanupTick :: "RateLimiter \<Rightarrow> Time \<Rightarrow> RateLimiter" where
  "cleanupTick rl now = (cleanup rl now)\<lparr>lastCleanup := now\<rparr>"

text \<open>
  \<^verbatim>\<open>Allow\<close>. A client without a state gets an empty one, made with
  \<^verbatim>\<open>make([]time.Time, 0, rl.maxRequests)\<close>, which panics for a negative capacity. The
  state is a pointer held in the map, so the pruned list stays in the map when the
  request is denied, too.
\<close>

definition Allow :: "RateLimiter \<Rightarrow> Time \<Rightarrow> string \<Rightarrow> rl_panic + (bool \<times> RateLimiter)" where
  "Allow rl now clientID =
     (let rl1 = (if now - lastCleanup rl > cleanupInterval rl
                 then (cleanup rl now)\<lparr>lastCleanup := now\<rparr> else rl)
      in case (case clients rl1 clientID of
                 Some state \<Rightarrow> Inr state
               | None \<Rightarrow>
                   if maxRequests rl1 < 0 then Inl PanicMakeslice
                   else Inr \<lparr>requests = [], lastSeen = now\<rparr>) of
           Inl e \<Rightarrow> Inl e
         | Inr state \<Rightarrow>
             let cutoff = now - windowDuration rl1;
                 validRequests = filter (\<lambda>reqTime. reqTime > cutoff) (requests state);
                 state1 = state\<lparr>requests := validRequests\<rparr>
             in if int (length (requests state1)) \<ge> maxRequests rl1
                then Inr (False, rl1\<lparr>clients := (clients rl1)(clientID \<mapsto> state1)\<rparr>)
                else Inr (True, rl1\<lparr>clients := (clients rl1)(clientID \<mapsto>
                            state1\<lparr>requests := requests state1 @ [now], lastSeen := now\<rparr>)\<rparr>))"

definition Reset :: "RateLimiter \<Rightarrow> RateLimiter" where
  "Reset rl = rl\<lparr>clients := Map.empty\<rparr>"

text \<open>Successive calls of \<open>Allow\<close> for one client, at the given clock readings.\<close>

fun AllowMany ::
  "RateLimiter \<Rightarrow> string \<Rightarrow> Time list \<Rightarrow> rl_panic + (bool list \<times> RateLimiter)" where
  "AllowMany rl clientID [] = Inr ([], rl)"
| "AllowMany rl clientID (t # ts) =
     (case Allow rl t clientID of
        Inl e \<Rightarrow> Inl e
      | Inr (b, rl1) \<Rightarrow>
          (case AllowMany rl1 clientID ts of
             Inl e \<Rightarrow> Inl e
           | Inr (bs, rl2) \<Rightarrow> Inr (b # bs, rl2)))"

text \<open>The timestamps stored for a client (none when the client has no state).\<close>

definition recorded :: "RateLimiter \<Rightarrow> string \<Rightarrow> Time list" where
  "recorded rl clientID = (case clients rl clientID of None \<Rightarrow> [] | Some state \<Rightarrow> requests state)"

text \<open>A timestamp lies in the trailing window of length \<open>w\<close> that ends at \<open>T\<close>.\<close>

definition inWindow :: "Duration \<Rightarrow> Time \<Rightarrow> Time \<Rightarrow> bool" where
  "inWindow w T t = (T - w < t \<and> t \<le> T)"

text \<open>The limiter's invariant: no client has more than \<open>maxRequests\<close> stored timestamps in
  any trailing window.\<close>

definition window_invariant :: "RateLimiter \<Rightarrow> bool" where
  "window_invariant rl =
     (\<forall>clientID state T. clients rl clientID = Some state \<longrightarrow>
        int (length (filter (inWindow (windowDuration rl) T) (requests state)))
          \<le> maxRequests rl)"

definition same_config :: "RateLimiter \<Rightarrow> RateLimiter \<Rightarrow> bool" where
  "same_config rl rl' =
     (maxRequests rl' = maxRequests rl \<and> windowDuration rl' = windowDuration rl
      \<and> cleanupInterval rl' = cleanupInterval rl)"

section \<open>CredentialVault (the file keyring)\<close>

text \<open>
  A Go byte slice that may be \<^verbatim>\<open>nil\<close> is a \<^typ>\<open>bytes option\<close>, with \<open>None\<close> for
  \<^verbatim>\<open>nil\<close>; \<^verbatim>\<open>len\<close> of \<^verbatim>\<open>nil\<close> is 0.
\<close>

definition slice_len :: "bytes option \<Rightarrow> nat" where
  "slice_len b = (case b of None \<Rightarrow> 0 | Some bs \<Rightarrow> length bs)"

record FileKeyring =
  keyFile :: string
  masterKey :: "bytes option"

datatype keyring_error =
    ErrGenerateMasterKey
  | ErrCreateKeyringDir fs_error
  | ErrWriteKeyringFile fs_error

definition keySize :: nat where
  "keySize = 32"

text \<open>
  \<^verbatim>\<open>deriveKeyFromDBPath\<close>: a hash object is fed the database path and then the salt (the
  fixed salt when the argument is \<^verbatim>\<open>nil\<close>); \<^verbatim>\<open>h.Sum(nil)\<close> is the digest of everything
  written, that is, of the concatenation.
\<close>

definition deriveKeyFromDBPath :: "Lib \<Rightarrow> string \<Rightarrow> bytes option \<Rightarrow> bytes" where
  "deriveKeyFromDBPath L dbPath salt =
     (let salt1 = (case salt of None \<Rightarrow> ''beads-federation-key-v1'' | Some s \<Rightarrow> s)
      in sha256_sum L (dbPath @ salt1))"

text \<open>
  \<^verbatim>\<open>NewFileKeyring\<close>. When the key file can be read, the master key is derived from the
  database path. Otherwise a random master key is drawn, then replaced by the derived
  key, the directory is created and the marker is written.
\<close>

definition NewFileKeyring ::
  "Lib \<Rightarrow> string \<Rightarrow> string \<Rightarrow> Rand \<Rightarrow> FileSystem \<Rightarrow> keyring_error + (FileKeyring \<times> FileSystem)" where
  "NewFileKeyring L kFile dbPath rnd fs =
     (let k = \<lparr>keyFile = kFile, masterKey = None\<rparr> in
      case os_ReadFile fs kFile of
        Inr _ \<Rightarrow> Inr (k\<lparr>masterKey := Some (deriveKeyFromDBPath L dbPath None)\<rparr>, fs)
      | Inl _ \<Rightarrow>
          (case rand_Read rnd keySize of
             None \<Rightarrow> Inl ErrGenerateMasterKey
           | Some randomKey \<Rightarrow>
               let k1 = k\<lparr>masterKey := Some randomKey\<rparr>;
                   k2 = k1\<lparr>masterKey := Some (deriveKeyFromDBPath L dbPath None)\<rparr>
               in (case os_MkdirAll fs (filepathDir L kFile) perm_0700 of
                     Inl e \<Rightarrow> Inl (ErrCreateKeyringDir e)
                   | Inr fs1 \<Rightarrow>
                       (case os_WriteFile fs1 kFile ''BEADS_KEYRING_V1'' perm_0600 of
                          Inl e \<Rightarrow> Inl (ErrWriteKeyringFile e)
                        | Inr fs2 \<Rightarrow> Inr (k2, fs2)))))"

text \<open>
  \<^verbatim>\<open>GetKey\<close> never returns an error. Writing a \<^verbatim>\<open>nil\<close> master key to the hash writes
  nothing.
\<close>

definition GetKey :: "Lib \<Rightarrow> FileKeyring \<Rightarrow> string \<Rightarrow> string \<Rightarrow> keyring_error + bytes option" where
  "GetKey L k service user =
     (if service = ''dolt-credentials'' then Inr (masterKey k)
      else
        let serviceKeyMaterial = service @ '':'' @ user in
        Inr (Some (sha256_sum L
               ((case masterKey k of None \<Rightarrow> [] | Some m \<Rightarrow> m) @ serviceKeyMaterial))))"

definition StoreKey :: "FileKeyring \<Rightarrow> string \<Rightarrow> string \<Rightarrow> bytes \<Rightarrow> keyring_error option" where
  "StoreKey k service user keyData = None"

definition DeleteKey :: "FileKeyring \<Rightarrow> string \<Rightarrow> string \<Rightarrow> keyring_error option" where
  "DeleteKey k service user = None"


section \<open>FederationCredentialStore\<close>

text \<open>
  The store's fields that the credential code reads. The only implementation of the
  \<^verbatim>\<open>Keyring\<close> interface in the repository is \<^verbatim>\<open>FileKeyring\<close>; \<open>None\<close> is a store without a
  keyring.
\<close>

record DoltStore =
  dbPath :: string
  keyring :: "FileKeyring option"

datatype crypt_error =
    ErrEncryptionKey
  | ErrCreateCipher
  | ErrNonce
  | ErrCiphertextTooShort
  | ErrDecrypt

text \<open>
  \<^verbatim>\<open>encryptionKey\<close>: the keyring's key for \<^verbatim>\<open>dolt-credentials\<close> when there is a keyring
  and it returns a key that is not \<^verbatim>\<open>nil\<close>; otherwise the digest of the database path
  followed by the fixed salt. It always returns a \<^verbatim>\<open>nil\<close> error.
\<close>

definition encryptionKey :: "Lib \<Rightarrow> DoltStore \<Rightarrow> crypt_error + bytes" where
  "encryptionKey L s =
     (let legacy = Inr (sha256_sum L (dbPath s @ ''beads-federation-key-v1'')) in
      case keyring s of
        None \<Rightarrow> legacy
      | Some k \<Rightarrow>
          (case GetKey L k ''dolt-credentials'' (dbPath s) of
             Inr (Some key) \<Rightarrow> Inr key
           | _ \<Rightarrow> legacy))"

text \<open>\<^verbatim>\<open>aes.NewCipher\<close> accepts keys of 16, 24 or 32 bytes; \<^verbatim>\<open>cipher.NewGCM\<close> on an AES
  block cannot fail, and its nonce size is 12.\<close>

definition aes_key_ok :: "bytes \<Rightarrow> bool" where
  "aes_key_ok key = (length key = 16 \<or> length key = 24 \<or> length key = 32)"

definition gcm_NonceSize :: nat where
  "gcm_NonceSize = 12"

text \<open>\<^verbatim>\<open>gcm.Seal(nonce, nonce, plaintext, nil)\<close> appends the sealed text to the nonce.\<close>

definition encryptPassword ::
  "Lib \<Rightarrow> DoltStore \<Rightarrow> Rand \<Rightarrow> string \<Rightarrow> crypt_error + bytes option" where
  "encryptPassword L s rnd password =
     (if password = [] then Inr None
      else case encryptionKey L s of
             Inl _ \<Rightarrow> Inl ErrEncryptionKey
           | Inr key \<Rightarrow>
               if \<not> aes_key_ok key then Inl ErrCreateCipher
               else (case rand_Read rnd gcm_NonceSize of
                       None \<Rightarrow> Inl ErrNonce
                     | Some nonce \<Rightarrow> Inr (Some (nonce @ gcm_seal L key nonce password))))"

definition decryptPassword :: "Lib \<Rightarrow> DoltStore \<Rightarrow> bytes option \<Rightarrow> crypt_error + string" where
  "decryptPassword L s encrypted =
     (if slice_len encrypted = 0 then Inr []
      else case encryptionKey L s of
             Inl _ \<Rightarrow> Inl ErrEncryptionKey
           | Inr key \<Rightarrow>
               if \<not> aes_key_ok key then Inl ErrCreateCipher
               else
                 let enc = (case encrypted of None \<Rightarrow> [] | Some e \<Rightarrow> e);
                     nonceSize = gcm_NonceSize
                 in if length enc < nonceSize then Inl ErrCiphertextTooShort
                    else
                      let nonce = take nonceSize enc; ciphertext = drop nonceSize enc in
                      (case gcm_open L key nonce ciphertext of
                         None \<Rightarrow> Inl ErrDecrypt
                       | Some plaintext \<Rightarrow> Inr plaintext))"

text \<open>
  The contract of the library that the round trip relies on: a SHA-256 digest has 32
  bytes, and opening what was sealed under the same key and nonce gives back the
  plaintext.
\<close>

definition lib_contract :: "Lib \<Rightarrow> bool" where
  "lib_contract L =
     ((\<forall>m. length (sha256_sum L m) = 32)
      \<and> (\<forall>k n p. gcm_open L k n (gcm_seal L k n p) = Some p))"

subsection \<open>Peers, the process environment and the database\<close>



text \<open>
  What happens outside the store is recorded as a trace of events: taking and releasing
  \<^verbatim>\<open>federationEnvMutex\<close>, setting and unsetting an environment variable, and a call of
  \<^verbatim>\<open>SecureWipe\<close> with the buffer as it is after the call.
\<close>

datatype event =
    EvLock
  | EvUnlock
  | EvSetenv string string
  | EvUnsetenv string
  | EvWipe bytes
  | EvOther string













chapter \<open>Verified properties\<close>

section \<open>Properties of SizeGuard\<close>

text \<open>
  C9. \<^verbatim>\<open>ValidateRequestSize\<close> returns an error exactly when the length of \<^verbatim>\<open>Args\<close> exceeds
  the request limit or the sum of the lengths of \<^verbatim>\<open>Args\<close>, \<^verbatim>\<open>Operation\<close>, \<^verbatim>\<open>Actor\<close>,
  \<^verbatim>\<open>Cwd\<close> and \<^verbatim>\<open>ExpectedDB\<close> exceeds it, and returns nil otherwise;
  \<^verbatim>\<open>ValidateResponseSize\<close> returns an error exactly when the length of \<^verbatim>\<open>Data\<close> exceeds the
  response limit; the limits are the constants 10 MiB = 10485760 and 50 MiB = 52428800.
\<close>

theorem size_limits_exact:
  "(ValidateRequestSize req \<noteq> None \<longleftrightarrow>
      (int (length (Args req)) > 10485760 \<or>
       int (length (Args req)) + int (length (Operation req)) + int (length (Actor req))
         + int (length (Cwd req)) + int (length (ExpectedDB req)) > 10485760))
   \<and> (ValidateRequestSize req = None \<longleftrightarrow>
      (int (length (Args req)) \<le> 10485760 \<and>
       int (length (Args req)) + int (length (Operation req)) + int (length (Actor req))
         + int (length (Cwd req)) + int (length (ExpectedDB req)) \<le> 10485760))
   \<and> (ValidateResponseSize resp \<noteq> None \<longleftrightarrow> int (length (Data resp)) > 52428800)
   \<and> MaxRequestSize = 10485760 \<and> MaxResponseSize = 52428800"
  by (auto simp: ValidateRequestSize_def ValidateResponseSize_def MaxRequestSize_def
      MaxResponseSize_def Let_def)

section \<open>Properties of the Signer\<close>

subsection \<open>Decimal rendering is injective and free of the delimiter\<close>

lemma lt10: "d < 10 \<Longrightarrow> d \<in> {0, 1, 2, 3, 4, 5, 6, 7, 8, 9::nat}"
  by auto

lemma digit_val_digit: "d < 10 \<Longrightarrow> digit_val (digit d) = d"
  by (auto dest!: lt10 simp: digit_val_def digit_def)

lemma digit_in: "d < 10 \<Longrightarrow> digit d \<in> set ''0123456789''"
  by (auto dest!: lt10 simp: digit_def)

lemma val_of_dec_nat: "val_of (dec_nat n) = n"
proof (induction n rule: dec_nat.induct)
  case (1 n)
  show ?case
  proof (cases "n < 10")
    case True
    then show ?thesis by (simp add: dec_nat.simps[of n] val_of_def digit_val_digit)
  next
    case False
    with 1 show ?thesis
      by (simp add: dec_nat.simps[of n] val_of_def digit_val_digit)
  qed
qed

lemma dec_nat_chars: "set (dec_nat n) \<subseteq> set ''0123456789''"
proof (induction n rule: dec_nat.induct)
  case (1 n)
  show ?case
  proof (cases "n < 10")
    case True
    then show ?thesis using digit_in[of n] by (simp add: dec_nat.simps[of n])
  next
    case False
    have "digit (n mod 10) \<in> set ''0123456789''" by (rule digit_in) simp
    with False 1 show ?thesis by (simp add: dec_nat.simps[of n])
  qed
qed

lemma dec_nat_nonempty: "dec_nat n \<noteq> []"
  by (simp add: dec_nat.simps[of n])

lemma dec_nat_inj: "dec_nat m = dec_nat n \<Longrightarrow> m = n"
  by (metis val_of_dec_nat)

lemma fmt_d_inj: "fmt_d i = fmt_d j \<Longrightarrow> i = j"
proof -
  assume eq: "fmt_d i = fmt_d j"
  have hd_ok: "hd (dec_nat n) \<noteq> CHR ''-''" for n
  proof -
    have "hd (dec_nat n) \<in> set (dec_nat n)" using dec_nat_nonempty[of n] by simp
    with dec_nat_chars[of n] have "hd (dec_nat n) \<in> set ''0123456789''" by blast
    then show ?thesis by auto
  qed
  show ?thesis
  proof (cases "i < 0"; cases "j < 0")
    assume "i < 0" "j < 0"
    with eq have "nat (- i) = nat (- j)" by (auto simp: fmt_d_def dest: dec_nat_inj)
    with \<open>i < 0\<close> \<open>j < 0\<close> show ?thesis by simp
  next
    assume "i < 0" "\<not> j < 0"
    with eq have "CHR ''-'' # dec_nat (nat (- i)) = dec_nat (nat j)" by (simp add: fmt_d_def)
    then have "hd (dec_nat (nat j)) = CHR ''-''" by (metis list.sel(1))
    with hd_ok show ?thesis by blast
  next
    assume "\<not> i < 0" "j < 0"
    with eq have "CHR ''-'' # dec_nat (nat (- j)) = dec_nat (nat i)" by (simp add: fmt_d_def)
    then have "hd (dec_nat (nat i)) = CHR ''-''" by (metis list.sel(1))
    with hd_ok show ?thesis by blast
  next
    assume "\<not> i < 0" "\<not> j < 0"
    with eq have "nat i = nat j" by (auto simp: fmt_d_def dest: dec_nat_inj)
    with \<open>\<not> i < 0\<close> \<open>\<not> j < 0\<close> show ?thesis by simp
  qed
qed

lemma fmt_d_no_bar: "CHR ''|'' \<notin> set (fmt_d i)"
proof -
  have "CHR ''|'' \<notin> set (dec_nat n)" for n
    using dec_nat_chars[of n] by auto
  then show ?thesis by (simp add: fmt_d_def)
qed

lemma split_at_sep:
  "c \<notin> set a \<Longrightarrow> c \<notin> set b \<Longrightarrow> a @ c # x = b @ c # y \<Longrightarrow> a = b \<and> x = y"
proof (induction a arbitrary: b)
  case Nil
  then show ?case by (cases b) auto
next
  case (Cons h a)
  then show ?case by (cases b) auto
qed

subsection \<open>Canonical payloads\<close>

text \<open>
  C2 (as stated). Two requests that differ only in how the bytes \<open>z|w|\<close> are divided
  between \<^verbatim>\<open>Actor\<close> and \<^verbatim>\<open>Cwd\<close> have the same canonical payload at the same timestamp:
  the fields are joined with an unescaped \<open>|\<close>, so the claim that different tuples always
  give different payloads is false.
\<close>

theorem payload_collision:
  "requestPayload \<lparr>Operation = ''list'', Args = ''{}'', Actor = ''z|w'', Cwd = [],
       ExpectedDB = [], RequestID = [], AuthToken = [], Signature = [], Timestamp = 0\<rparr>
     (time_Unix 5 0)
   = requestPayload \<lparr>Operation = ''list'', Args = ''{}'', Actor = ''z'', Cwd = ''w|'',
       ExpectedDB = [], RequestID = [], AuthToken = [], Signature = [], Timestamp = 0\<rparr>
     (time_Unix 5 0)
   \<and> (''list'', ''{}'', ''z|w'', []) \<noteq> (''list'', ''{}'', ''z'', ''w|'')"
  by (simp add: requestPayload_def)

text \<open>
  C2 (amended). When the operation, the args and the actor of both requests contain no
  \<open>|\<close> byte, equal canonical payloads force equal operation, args, actor and cwd and equal
  unix seconds of the two timestamps; hence requests that differ in one of these have
  different payloads. (The cwd is the last field and may contain any byte.)
\<close>

theorem payload_injective_without_delimiter:
  assumes "CHR ''|'' \<notin> set (Operation r1) \<union> set (Args r1) \<union> set (Actor r1)"
    and "CHR ''|'' \<notin> set (Operation r2) \<union> set (Args r2) \<union> set (Actor r2)"
    and "requestPayload r1 t1 = requestPayload r2 t2"
  shows "Operation r1 = Operation r2 \<and> Args r1 = Args r2 \<and> Actor r1 = Actor r2
         \<and> Cwd r1 = Cwd r2 \<and> Unix t1 = Unix t2"
proof -
  let ?bar = "CHR ''|''"
  from assms(3) have e0:
    "Operation r1 @ ?bar # (Args r1 @ ?bar # (fmt_d (Unix t1) @ ?bar # (Actor r1 @ ?bar # Cwd r1)))
     = Operation r2 @ ?bar # (Args r2 @ ?bar # (fmt_d (Unix t2) @ ?bar # (Actor r2 @ ?bar # Cwd r2)))"
    by (simp add: requestPayload_def)
  from assms(1,2) have n1: "?bar \<notin> set (Operation r1)" "?bar \<notin> set (Operation r2)"
    and n2: "?bar \<notin> set (Args r1)" "?bar \<notin> set (Args r2)"
    and n3: "?bar \<notin> set (Actor r1)" "?bar \<notin> set (Actor r2)"
    by auto
  from split_at_sep[OF n1 e0] have op: "Operation r1 = Operation r2"
    and e1: "Args r1 @ ?bar # (fmt_d (Unix t1) @ ?bar # (Actor r1 @ ?bar # Cwd r1))
           = Args r2 @ ?bar # (fmt_d (Unix t2) @ ?bar # (Actor r2 @ ?bar # Cwd r2))"
    by blast+
  from split_at_sep[OF n2 e1] have ar: "Args r1 = Args r2"
    and e2: "fmt_d (Unix t1) @ ?bar # (Actor r1 @ ?bar # Cwd r1)
           = fmt_d (Unix t2) @ ?bar # (Actor r2 @ ?bar # Cwd r2)"
    by blast+
  from split_at_sep[OF fmt_d_no_bar fmt_d_no_bar e2] have ts: "fmt_d (Unix t1) = fmt_d (Unix t2)"
    and e3: "Actor r1 @ ?bar # Cwd r1 = Actor r2 @ ?bar # Cwd r2"
    by blast+
  from split_at_sep[OF n3 e3] have ac: "Actor r1 = Actor r2" and cw: "Cwd r1 = Cwd r2"
    by blast+
  from ts have "Unix t1 = Unix t2" by (rule fmt_d_inj)
  with op ar ac cw show ?thesis by simp
qed

text \<open>The amended statement at two concrete requests that differ in the actor.\<close>

theorem payload_injective_without_delimiter_witness:
  "requestPayload \<lparr>Operation = ''list'', Args = ''{}'', Actor = ''amy'', Cwd = ''/a|b'',
       ExpectedDB = [], RequestID = [], AuthToken = [], Signature = [], Timestamp = 0\<rparr>
     (time_Unix 5 0)
   \<noteq> requestPayload \<lparr>Operation = ''list'', Args = ''{}'', Actor = ''bob'', Cwd = ''/a|b'',
       ExpectedDB = [], RequestID = [], AuthToken = [], Signature = [], Timestamp = 0\<rparr>
     (time_Unix 5 0)"
  using payload_injective_without_delimiter
    [of "\<lparr>Operation = ''list'', Args = ''{}'', Actor = ''amy'', Cwd = ''/a|b'',
         ExpectedDB = [], RequestID = [], AuthToken = [], Signature = [], Timestamp = 0\<rparr>"
        "\<lparr>Operation = ''list'', Args = ''{}'', Actor = ''bob'', Cwd = ''/a|b'',
         ExpectedDB = [], RequestID = [], AuthToken = [], Signature = [], Timestamp = 0\<rparr>"
        "time_Unix 5 0" "time_Unix 5 0"]
  by auto

section \<open>Properties of the AuthManager\<close>

subsection \<open>Tokens are hexadecimal\<close>

lemma hexdigit_in: "d < 16 \<Longrightarrow> hexdigit d \<in> set ''0123456789abcdef''"
proof -
  assume "d < 16"
  then show ?thesis by (auto simp: hexdigit_def eval_nat_numeral less_Suc_eq)
qed

lemma hex_chars: "set (hex_EncodeToString bs) \<subseteq> set ''0123456789abcdef''"
proof (induction bs)
  case Nil
  show ?case by simp
next
  case (Cons b bs)
  have "(of_char b :: nat) < 256" by (rule nat_of_char_less_256)
  then have "(of_char b :: nat) < 16 * 16" by simp
  then have hi: "(of_char b :: nat) div 16 < 16" by (rule less_mult_imp_div_less)
  have lo: "(of_char b :: nat) mod 16 < 16" by simp
  from hexdigit_in[OF hi] hexdigit_in[OF lo] Cons show ?case by simp
qed

lemma hex_length: "length (hex_EncodeToString bs) = 2 * length bs"
  by (induction bs) simp_all

lemma generateToken_hex:
  assumes "generateToken L am = Some tok"
  shows "length tok = 32 \<and> set tok \<subseteq> set ''0123456789abcdef''"
proof -
  let ?h = "hex_EncodeToString
              (hmac_sha256 L (secretKey am) (socketPath am @ formatRFC3339Nano L (startTime am)))"
  from assms have len: "\<not> length ?h < 32" and tok: "tok = take 32 ?h"
    by (auto simp: generateToken_def Let_def split: if_splits)
  from len tok have "length tok = 32" by simp
  moreover have "set tok \<subseteq> set ?h" unfolding tok by (rule set_take_subset)
  ultimately show ?thesis using hex_chars[of "hmac_sha256 L (secretKey am)
      (socketPath am @ formatRFC3339Nano L (startTime am))"] by blast
qed

lemma generateToken_fields:
  "generateToken L (am\<lparr>token := x\<rparr>) = generateToken L am"
  "generateToken L (am\<lparr>signer := y\<rparr>) = generateToken L am"
  by (simp_all add: generateToken_def)

subsection \<open>What construction leaves on disk\<close>

text \<open>First start: no token file yet, the random source delivers.\<close>

lemma NewAuthManager_generates:
  assumes "tf = filepathJoin L (filepathDir L sock) ''daemon-auth-token''"
    and "files fs tf = None" and "tf \<notin> denied fs"
    and "generateToken L \<lparr>secretKey = map f [0..<32], token = [], tokenFile = tf,
           startTime = t, socketPath = sock, signer = None\<rparr> = Some tok"
  shows "NewAuthManager L sock t (Some f) fs =
           Inr (\<lparr>secretKey = map f [0..<32], token = tok, tokenFile = tf, startTime = t,
                  socketPath = sock, signer = Some \<lparr>signerKey = map f [0..<32]\<rparr>\<rparr>,
                fs\<lparr>files := (files fs)(tf \<mapsto> (tok, perm_0600))\<rparr>)"
  using assms
  by (simp add: NewAuthManager_def loadOrGenerateSecret_def os_ReadFile_def rand_Read_def
      os_WriteFile_def saveToken_def NewRequestSigner_def)

text \<open>Restart: the token file exists, and its content becomes the secret key.\<close>

lemma NewAuthManager_loads:
  assumes "tf = filepathJoin L (filepathDir L sock) ''daemon-auth-token''"
    and "files fs tf = Some (d, m)" and "tf \<notin> denied fs"
    and "generateToken L \<lparr>secretKey = d, token = [], tokenFile = tf,
           startTime = t, socketPath = sock, signer = None\<rparr> = Some tok"
  shows "NewAuthManager L sock t rnd fs =
           Inr (\<lparr>secretKey = d, token = tok, tokenFile = tf, startTime = t,
                  socketPath = sock, signer = Some \<lparr>signerKey = d\<rparr>\<rparr>,
                fs\<lparr>files := (files fs)(tf \<mapsto> (tok, m))\<rparr>)"
  using assms
  by (simp add: NewAuthManager_def loadOrGenerateSecret_def os_ReadFile_def
      os_WriteFile_def saveToken_def NewRequestSigner_def)

lemma NewAuthManager_panics:
  assumes "tf = filepathJoin L (filepathDir L sock) ''daemon-auth-token''"
    and "files fs tf = Some (d, m)"
    and "generateToken L \<lparr>secretKey = d, token = [], tokenFile = tf,
           startTime = t, socketPath = sock, signer = None\<rparr> = None"
  shows "NewAuthManager L sock t rnd fs = Inl PanicSliceBounds"
  using assms
  by (simp add: NewAuthManager_def loadOrGenerateSecret_def os_ReadFile_def)

lemma NewAuthManager_panics_fresh:
  assumes "tf = filepathJoin L (filepathDir L sock) ''daemon-auth-token''"
    and "files fs tf = None" and "tf \<notin> denied fs"
    and "generateToken L \<lparr>secretKey = map f [0..<32], token = [], tokenFile = tf,
           startTime = t, socketPath = sock, signer = None\<rparr> = None"
  shows "NewAuthManager L sock t (Some f) fs = Inl PanicSliceBounds"
  using assms
  by (simp add: NewAuthManager_def loadOrGenerateSecret_def os_ReadFile_def rand_Read_def
      os_WriteFile_def)

text \<open>Every manager that construction returns has a signer, keyed with its secret key.\<close>

lemma NewAuthManager_signer:
  assumes "NewAuthManager L sock t rnd fs = Inr (am, fs')"
  shows "signer am = Some \<lparr>signerKey = secretKey am\<rparr>"
  using assms
  by (auto simp: NewAuthManager_def loadOrGenerateSecret_def saveToken_def NewRequestSigner_def
      Let_def split: sum.splits option.splits)

text \<open>
  C1 (evaluation at the failing input). The daemon starts in a directory without a token
  file, the random source delivers the byte \<open>K\<close> 32 times, and every path is writable.
  Either the token slice panics (only when the supplied MAC is shorter than 16 bytes), or
  construction succeeds and then: the secret key is the 32 random bytes; the only file
  on disk is \<^verbatim>\<open>daemon-auth-token\<close>, and it holds the token, not the secret key; the token
  differs from the secret key; and a restart at any later time, with any random source,
  loads the first run's token as its secret key. So the secret key and the token share one
  file, the token overwrites the key, and the key does not survive a restart.
\<close>

theorem token_overwrites_secret_key:
  "(case NewAuthManager L sock t (Some (\<lambda>i. CHR ''K'')) \<lparr>files = Map.empty, denied = {}\<rparr> of
      Inl e \<Rightarrow> e = PanicSliceBounds
    | Inr (am, fs1) \<Rightarrow>
        secretKey am = replicate 32 (CHR ''K'')
        \<and> tokenFile am = filepathJoin L (filepathDir L sock) ''daemon-auth-token''
        \<and> dom (files fs1) = {tokenFile am}
        \<and> files fs1 (tokenFile am) = Some (token am, perm_0600)
        \<and> token am \<noteq> secretKey am
        \<and> (case NewAuthManager L sock t' rnd' fs1 of
              Inl e \<Rightarrow> e = PanicSliceBounds
            | Inr (am2, fs2) \<Rightarrow>
                secretKey am2 = token am \<and> secretKey am2 \<noteq> secretKey am
                \<and> dom (files fs2) = {tokenFile am}))"
proof -
  let ?tf = "filepathJoin L (filepathDir L sock) ''daemon-auth-token''"
  let ?f = "\<lambda>i::nat. CHR ''K''"
  let ?fs = "\<lparr>files = Map.empty, denied = {}\<rparr>"
  let ?am0 = "\<lparr>secretKey = map ?f [0..<32], token = [], tokenFile = ?tf,
           startTime = t, socketPath = sock, signer = None\<rparr>"
  have sec: "map ?f [0..<32] = replicate 32 (CHR ''K'')"
    by (simp add: map_replicate_const)
  show ?thesis
  proof (cases "generateToken L ?am0")
    case None
    from NewAuthManager_panics_fresh[OF refl _ _ None]
    show ?thesis by simp
  next
    case (Some tok)
    let ?fs1 = "?fs\<lparr>files := (files ?fs)(?tf \<mapsto> (tok, perm_0600))\<rparr>"
    from NewAuthManager_generates[OF refl _ _ Some]
    have first: "NewAuthManager L sock t (Some ?f) ?fs =
           Inr (\<lparr>secretKey = map ?f [0..<32], token = tok, tokenFile = ?tf, startTime = t,
                  socketPath = sock, signer = Some \<lparr>signerKey = map ?f [0..<32]\<rparr>\<rparr>, ?fs1)"
      by simp
    from generateToken_hex[OF Some] have len: "length tok = 32"
      and hex: "set tok \<subseteq> set ''0123456789abcdef''" by simp_all
    have ne: "tok \<noteq> replicate 32 (CHR ''K'')"
    proof
      assume "tok = replicate 32 (CHR ''K'')"
      then have "CHR ''K'' \<in> set tok" by simp
      with hex show False by auto
    qed
    have f1: "files ?fs1 ?tf = Some (tok, perm_0600)" by simp
    have d1: "?tf \<notin> denied ?fs1" by simp
    let ?am1 = "\<lparr>secretKey = tok, token = [], tokenFile = ?tf,
           startTime = t', socketPath = sock, signer = None\<rparr>"
    have second: "(case NewAuthManager L sock t' rnd' ?fs1 of
              Inl e \<Rightarrow> e = PanicSliceBounds
            | Inr (am2, fs2) \<Rightarrow>
                secretKey am2 = tok \<and> secretKey am2 \<noteq> replicate 32 (CHR ''K'')
                \<and> dom (files fs2) = {?tf})"
    proof (cases "generateToken L ?am1")
      case None
      from NewAuthManager_panics[OF refl f1 None] show ?thesis by simp
    next
      case (Some tok2)
      from NewAuthManager_loads[OF refl f1 d1 Some] ne show ?thesis by simp
    qed
    from first second sec ne show ?thesis by (auto split: sum.splits)
  qed
qed

subsection \<open>Request authentication\<close>

text \<open>
  C3 (as stated). A request for a non-diagnostic operation that carries the issued token,
  the nonzero timestamp \<open>-1\<close> and the non-empty signature \<open>x\<close> is accepted, although the
  signer rejects that signature: the code verifies the signature only when the timestamp
  is positive, not whenever it is nonzero.
\<close>

theorem negative_timestamp_skips_signature_check:
  "ValidateRequestAuth demo_lib
     \<lparr>secretKey = ''k'', token = ''0123456789abcdef0123456789abcdef'',
       tokenFile = ''/run/daemon-auth-token'', startTime = 0, socketPath = ''/run/bd.sock'',
       signer = Some \<lparr>signerKey = ''k''\<rparr>\<rparr>
     \<lparr>Operation = ''list'', Args = ''{}'', Actor = ''amy'', Cwd = ''/w'', ExpectedDB = [],
       RequestID = ''1'', AuthToken = ''0123456789abcdef0123456789abcdef'', Signature = ''x'',
       Timestamp = - 1\<rparr> = None
   \<and> (- 1 :: int) \<noteq> 0 \<and> ''x'' \<noteq> []
   \<and> VerifyRequest demo_lib \<lparr>signerKey = ''k''\<rparr>
       \<lparr>Operation = ''list'', Args = ''{}'', Actor = ''amy'', Cwd = ''/w'', ExpectedDB = [],
         RequestID = ''1'', AuthToken = ''0123456789abcdef0123456789abcdef'', Signature = ''x'',
         Timestamp = - 1\<rparr>
       (time_Unix (- 1) 0) ''x'' = Some InvalidRequestSignature"
proof -
  have "length (SignRequest demo_lib rs req ts) \<noteq> length ''x''" for rs req ts
    by (simp add: SignRequest_def hex_length)
  then have "SignRequest demo_lib rs req ts \<noteq> ''x''" for rs req ts
    by metis
  then have "''x'' \<noteq> SignRequest demo_lib rs req ts" for rs req ts
    by metis
  then show ?thesis
    by (simp add: ValidateRequestAuth_def VerifyRequest_def hmac_Equal_def ValidateToken_def
        OpPing_def OpHealth_def OpMetrics_def)
qed

text \<open>
  C3 (amended). For a manager with a signer (every manager that \<open>NewAuthManager\<close> returns):
  the operations ping, health and metrics succeed with no check; for every other
  operation the result is the missing-token error exactly when the token is empty, the
  invalid-token error exactly when the token is non-empty and differs from the issued
  one, and when the token matches, the signature is verified by the signer, at the time
  built from the request's timestamp, exactly when that timestamp is positive and the
  signature is non-empty; a failure of that verification is reported by an error that is
  neither of the two token errors.
\<close>

theorem ValidateRequestAuth_decision:
  assumes "signer am = Some rs"
  shows "(Operation req \<in> {''ping'', ''health'', ''metrics''} \<longrightarrow>
            ValidateRequestAuth L am req = None)
       \<and> (Operation req \<notin> {''ping'', ''health'', ''metrics''} \<longrightarrow>
            (ValidateRequestAuth L am req = Some AuthMissing \<longleftrightarrow> AuthToken req = [])
          \<and> (ValidateRequestAuth L am req = Some AuthInvalid \<longleftrightarrow>
               AuthToken req \<noteq> [] \<and> AuthToken req \<noteq> token am)
          \<and> (AuthToken req \<noteq> [] \<and> AuthToken req = token am \<longrightarrow>
               ValidateRequestAuth L am req =
                 (if Timestamp req > 0 \<and> Signature req \<noteq> []
                  then map_option SignatureFailed
                         (VerifyRequest L rs req (time_Unix (Timestamp req) 0) (Signature req))
                  else None)))
       \<and> (\<forall>e. SignatureFailed e \<noteq> AuthMissing \<and> SignatureFailed e \<noteq> AuthInvalid)"
  using assms
  by (auto simp: ValidateRequestAuth_def ValidateToken_def hmac_Equal_def OpPing_def
      OpHealth_def OpMetrics_def split: option.splits)

text \<open>The amended statement at a diagnostic request and at a signed request whose
  signature is wrong.\<close>

theorem ValidateRequestAuth_decision_witness:
  "ValidateRequestAuth demo_lib
     \<lparr>secretKey = ''k'', token = ''0123456789abcdef0123456789abcdef'',
       tokenFile = ''/run/daemon-auth-token'', startTime = 0, socketPath = ''/run/bd.sock'',
       signer = Some \<lparr>signerKey = ''k''\<rparr>\<rparr>
     \<lparr>Operation = ''ping'', Args = [], Actor = [], Cwd = [], ExpectedDB = [],
       RequestID = [], AuthToken = [], Signature = [], Timestamp = 0\<rparr> = None
   \<and> ValidateRequestAuth demo_lib
     \<lparr>secretKey = ''k'', token = ''0123456789abcdef0123456789abcdef'',
       tokenFile = ''/run/daemon-auth-token'', startTime = 0, socketPath = ''/run/bd.sock'',
       signer = Some \<lparr>signerKey = ''k''\<rparr>\<rparr>
     \<lparr>Operation = ''list'', Args = ''{}'', Actor = ''amy'', Cwd = ''/w'', ExpectedDB = [],
       RequestID = ''1'', AuthToken = ''0123456789abcdef0123456789abcdef'', Signature = ''x'',
       Timestamp = 7\<rparr> = Some (SignatureFailed InvalidRequestSignature)"
proof -
  let ?am = "\<lparr>secretKey = ''k'', token = ''0123456789abcdef0123456789abcdef'',
       tokenFile = ''/run/daemon-auth-token'', startTime = 0, socketPath = ''/run/bd.sock'',
       signer = Some \<lparr>signerKey = ''k''\<rparr>\<rparr>"
  let ?ping = "\<lparr>Operation = ''ping'', Args = [], Actor = [], Cwd = [], ExpectedDB = [],
       RequestID = [], AuthToken = [], Signature = [], Timestamp = 0\<rparr>"
  let ?list = "\<lparr>Operation = ''list'', Args = ''{}'', Actor = ''amy'', Cwd = ''/w'',
       ExpectedDB = [], RequestID = ''1'', AuthToken = ''0123456789abcdef0123456789abcdef'',
       Signature = ''x'', Timestamp = 7\<rparr>"
  have sg: "signer ?am = Some \<lparr>signerKey = ''k''\<rparr>" by simp
  have "length (SignRequest demo_lib rs req ts) \<noteq> length ''x''" for rs req ts
    by (simp add: SignRequest_def hex_length)
  then have bad: "''x'' \<noteq> SignRequest demo_lib rs req ts" for rs req ts
    by metis
  have v: "VerifyRequest demo_lib \<lparr>signerKey = ''k''\<rparr> ?list (time_Unix 7 0) ''x''
           = Some InvalidRequestSignature"
    using bad by (simp add: VerifyRequest_def hmac_Equal_def)
  from ValidateRequestAuth_decision[OF sg, of ?ping demo_lib]
  have p: "ValidateRequestAuth demo_lib ?am ?ping = None" by simp
  from ValidateRequestAuth_decision[OF sg, of ?list demo_lib] v
  have l: "ValidateRequestAuth demo_lib ?am ?list = Some (SignatureFailed InvalidRequestSignature)"
    by simp
  from p l show ?thesis by simp
qed

section \<open>Properties of the RateLimiter\<close>

subsection \<open>Single calls of Allow\<close>

lemma cleanup_config [simp]:
  "maxRequests (cleanup rl now) = maxRequests rl"
  "windowDuration (cleanup rl now) = windowDuration rl"
  "cleanupInterval (cleanup rl now) = cleanupInterval rl"
  by (simp_all add: cleanup_def Let_def)

lemma cleanup_keeps:
  "clients rl c = Some st \<Longrightarrow> now - cleanupInterval rl \<le> lastSeen st \<Longrightarrow>
   clients (cleanup rl now) c = Some st"
  by (simp add: cleanup_def Let_def)

lemma cleanup_clients:
  "clients (cleanup rl now) c = Some st \<Longrightarrow> clients rl c = Some st"
  by (auto simp: cleanup_def Let_def split: option.splits if_splits)

lemma filter_all: "\<forall>t\<in>set xs. P t \<Longrightarrow> filter P xs = xs"
  by (induction xs) auto

lemma Allow_admit:
  assumes "clients rl c = Some st"
    and "\<forall>t\<in>set (requests st). now - windowDuration rl < t"
    and "int (length (requests st)) < maxRequests rl"
    and "now - cleanupInterval rl \<le> lastSeen st"
  shows "\<exists>rl'. Allow rl now c = Inr (True, rl')
           \<and> clients rl' c = Some \<lparr>requests = requests st @ [now], lastSeen = now\<rparr>
           \<and> same_config rl rl'"
proof -
  let ?rl1 = "if now - lastCleanup rl > cleanupInterval rl
                 then (cleanup rl now)\<lparr>lastCleanup := now\<rparr> else rl"
  have c1: "clients ?rl1 c = Some st"
    using assms(1,4) by (simp add: cleanup_keeps)
  have cfg: "maxRequests ?rl1 = maxRequests rl" "windowDuration ?rl1 = windowDuration rl"
    "cleanupInterval ?rl1 = cleanupInterval rl"
    by simp_all
  have f: "filter (\<lambda>reqTime. reqTime > now - windowDuration rl) (requests st) = requests st"
    using assms(2) by (intro filter_all) simp
  show ?thesis
    using c1 cfg f assms(3)
    by (simp add: Allow_def Let_def same_config_def)
qed

lemma Allow_deny:
  assumes "clients rl c = Some st"
    and "\<forall>t\<in>set (requests st). now - windowDuration rl < t"
    and "maxRequests rl \<le> int (length (requests st))"
    and "now - cleanupInterval rl \<le> lastSeen st"
  shows "\<exists>rl'. Allow rl now c = Inr (False, rl')
           \<and> clients rl' c = Some st
           \<and> same_config rl rl'"
proof -
  let ?rl1 = "if now - lastCleanup rl > cleanupInterval rl
                 then (cleanup rl now)\<lparr>lastCleanup := now\<rparr> else rl"
  have c1: "clients ?rl1 c = Some st"
    using assms(1,4) by (simp add: cleanup_keeps)
  have cfg: "maxRequests ?rl1 = maxRequests rl" "windowDuration ?rl1 = windowDuration rl"
    "cleanupInterval ?rl1 = cleanupInterval rl"
    by simp_all
  have f: "filter (\<lambda>reqTime. reqTime > now - windowDuration rl) (requests st) = requests st"
    using assms(2) by (intro filter_all) simp
  show ?thesis
    using c1 cfg f assms(3)
    by (simp add: Allow_def Let_def same_config_def)
qed

lemma filter_none: "\<forall>t\<in>set xs. \<not> P t \<Longrightarrow> filter P xs = []"
  by (induction xs) auto

lemma Allow_expired:
  assumes "\<forall>t\<in>set (recorded rl c). t \<le> now - windowDuration rl"
    and "0 < maxRequests rl"
  shows "\<exists>rl'. Allow rl now c = Inr (True, rl')
           \<and> clients rl' c = Some \<lparr>requests = [now], lastSeen = now\<rparr>
           \<and> same_config rl rl'"
proof -
  let ?rl1 = "if now - lastCleanup rl > cleanupInterval rl
                 then (cleanup rl now)\<lparr>lastCleanup := now\<rparr> else rl"
  have cfg: "maxRequests ?rl1 = maxRequests rl" "windowDuration ?rl1 = windowDuration rl"
    "cleanupInterval ?rl1 = cleanupInterval rl"
    by simp_all
  show ?thesis
  proof (cases "clients ?rl1 c")
    case None
    then show ?thesis using cfg assms(2)
      by (simp add: Allow_def Let_def same_config_def)
  next
    case (Some st)
    then have "clients rl c = Some st"
      by (auto dest: cleanup_clients split: if_splits)
    with assms(1) have "\<forall>t\<in>set (requests st). \<not> (now - windowDuration rl < t)"
      by (auto simp: recorded_def)
    then have f: "filter (\<lambda>reqTime. reqTime > now - windowDuration rl) (requests st) = []"
      by (intro filter_none) simp
    show ?thesis using Some cfg f assms(2)
      by (simp add: Allow_def Let_def same_config_def)
  qed
qed


lemma same_config_trans: "same_config a b \<Longrightarrow> same_config b c \<Longrightarrow> same_config a c"
  by (simp add: same_config_def)

lemma AllowMany_admits:
  assumes "clients rl c = Some st"
    and "\<forall>t\<in>set (requests st @ ts). now - windowDuration rl < t"
    and "\<forall>t\<in>set ts. t \<le> now"
    and "now - windowDuration rl < lastSeen st"
    and "int (length (requests st) + length ts) \<le> maxRequests rl"
    and "windowDuration rl \<le> cleanupInterval rl"
  shows "\<exists>rl'. AllowMany rl c ts = Inr (replicate (length ts) True, rl')
           \<and> clients rl' c = Some \<lparr>requests = requests st @ ts, lastSeen = last (lastSeen st # ts)\<rparr>
           \<and> same_config rl rl'"
  using assms
proof (induction ts arbitrary: rl st)
  case Nil
  then show ?case by (simp add: same_config_def)
next
  case (Cons t ts)
  have tn: "t \<le> now" using Cons.prems(3) by simp
  have inw: "\<forall>x\<in>set (requests st). t - windowDuration rl < x"
  proof
    fix x assume "x \<in> set (requests st)"
    with Cons.prems(2) have "now - windowDuration rl < x" by simp
    with tn show "t - windowDuration rl < x" by linarith
  qed
  have room: "int (length (requests st)) < maxRequests rl"
    using Cons.prems(5) by simp
  have fresh: "t - cleanupInterval rl \<le> lastSeen st"
    using tn Cons.prems(4,6) by linarith
  from Allow_admit[OF Cons.prems(1) inw room fresh]
  obtain rl1 where a: "Allow rl t c = Inr (True, rl1)"
    and c1: "clients rl1 c = Some \<lparr>requests = requests st @ [t], lastSeen = t\<rparr>"
    and s1: "same_config rl rl1" by blast
  let ?st1 = "\<lparr>requests = requests st @ [t], lastSeen = t\<rparr>"
  from s1 have w1: "windowDuration rl1 = windowDuration rl"
    and m1: "maxRequests rl1 = maxRequests rl"
    and i1: "cleanupInterval rl1 = cleanupInterval rl"
    by (simp_all add: same_config_def)
  have p2: "\<forall>x\<in>set (requests ?st1 @ ts). now - windowDuration rl1 < x"
    using Cons.prems(2) w1 by auto
  have p3: "\<forall>x\<in>set ts. x \<le> now" using Cons.prems(3) by simp
  have p4: "now - windowDuration rl1 < lastSeen ?st1"
    using Cons.prems(2) w1 by simp
  have p5: "int (length (requests ?st1) + length ts) \<le> maxRequests rl1"
    using Cons.prems(5) m1 by simp
  have p6: "windowDuration rl1 \<le> cleanupInterval rl1"
    using Cons.prems(6) w1 i1 by simp
  from Cons.IH[OF c1 p2 p3 p4 p5 p6]
  obtain rl' where b: "AllowMany rl1 c ts = Inr (replicate (length ts) True, rl')"
    and c2: "clients rl' c = Some \<lparr>requests = requests ?st1 @ ts, lastSeen = last (lastSeen ?st1 # ts)\<rparr>"
    and s2: "same_config rl1 rl'" by blast
  from a b have "AllowMany rl c (t # ts) = Inr (replicate (length (t # ts)) True, rl')"
    by simp
  moreover from c2 have "clients rl' c = Some \<lparr>requests = requests st @ t # ts, lastSeen = last (lastSeen st # t # ts)\<rparr>"
    by simp
  moreover from s1 s2 have "same_config rl rl'" by (rule same_config_trans)
  ultimately show ?case by blast
qed

subsection \<open>Reaching the limit, and the window elapsing\<close>

text \<open>
  C4 (amended). Take a limiter with \<open>maxRequests \<ge> 1\<close> whose window is no longer than its
  cleanup interval, a client whose stored timestamps (if any) have all left the window by
  the time of the first call, and \<open>maxRequests\<close> calls of \<open>Allow\<close> for that client at
  clock readings \<open>ts\<close> that all lie in the window ending at \<open>now\<close>. Then all these calls are
  admitted and the client's state holds exactly \<open>ts\<close>; the next call, at \<open>now\<close>, returns
  false and leaves the client's state as it was; and once the window has moved past every
  recorded timestamp, at \<open>later\<close>, a call returns true.
\<close>

theorem limit_then_window:
  assumes "0 < maxRequests rl"
    and "int (length ts) = maxRequests rl"
    and "windowDuration rl \<le> cleanupInterval rl"
    and "\<forall>t\<in>set (recorded rl c). t \<le> hd ts - windowDuration rl"
    and "\<forall>t\<in>set ts. now - windowDuration rl < t \<and> t \<le> now"
    and "\<forall>t\<in>set ts. t \<le> later - windowDuration rl"
  shows "\<exists>rl1 rl2 rl3.
           AllowMany rl c ts = Inr (replicate (length ts) True, rl1)
         \<and> clients rl1 c = Some \<lparr>requests = ts, lastSeen = last ts\<rparr>
         \<and> Allow rl1 now c = Inr (False, rl2)
         \<and> clients rl2 c = clients rl1 c
         \<and> Allow rl2 later c = Inr (True, rl3)"
proof -
  from assms(1,2) obtain t ts' where ts: "ts = t # ts'" by (cases ts) auto
  from assms(4) ts have old: "\<forall>x\<in>set (recorded rl c). x \<le> t - windowDuration rl" by simp
  from Allow_expired[OF old assms(1)]
  obtain rl0 where a0: "Allow rl t c = Inr (True, rl0)"
    and c0: "clients rl0 c = Some \<lparr>requests = [t], lastSeen = t\<rparr>"
    and s0: "same_config rl rl0" by blast
  let ?st0 = "\<lparr>requests = [t], lastSeen = t\<rparr>"
  from s0 have w0: "windowDuration rl0 = windowDuration rl"
    and m0: "maxRequests rl0 = maxRequests rl"
    and i0: "cleanupInterval rl0 = cleanupInterval rl"
    by (simp_all add: same_config_def)
  have p2: "\<forall>x\<in>set (requests ?st0 @ ts'). now - windowDuration rl0 < x"
    using assms(5) ts w0 by auto
  have p3: "\<forall>x\<in>set ts'. x \<le> now" using assms(5) ts by simp
  have p4: "now - windowDuration rl0 < lastSeen ?st0" using assms(5) ts w0 by simp
  have p5: "int (length (requests ?st0) + length ts') \<le> maxRequests rl0"
    using assms(2) ts m0 by simp
  have p6: "windowDuration rl0 \<le> cleanupInterval rl0" using assms(3) w0 i0 by simp
  from AllowMany_admits[OF c0 p2 p3 p4 p5 p6]
  obtain rl1 where b: "AllowMany rl0 c ts' = Inr (replicate (length ts') True, rl1)"
    and c1': "clients rl1 c = Some \<lparr>requests = requests ?st0 @ ts', lastSeen = last (lastSeen ?st0 # ts')\<rparr>"
    and s1: "same_config rl0 rl1" by blast
  from a0 b ts have run: "AllowMany rl c ts = Inr (replicate (length ts) True, rl1)" by simp
  from c1' ts have c1: "clients rl1 c = Some \<lparr>requests = ts, lastSeen = last ts\<rparr>" by simp
  let ?st = "\<lparr>requests = ts, lastSeen = last ts\<rparr>"
  from s0 s1 have s01: "same_config rl rl1" by (rule same_config_trans)
  then have w1: "windowDuration rl1 = windowDuration rl"
    and m1: "maxRequests rl1 = maxRequests rl"
    and i1: "cleanupInterval rl1 = cleanupInterval rl"
    by (simp_all add: same_config_def)
  have lastin: "last ts \<in> set ts" using ts by simp
  have d2: "\<forall>x\<in>set (requests ?st). now - windowDuration rl1 < x" using assms(5) w1 by simp
  have d3: "maxRequests rl1 \<le> int (length (requests ?st))" using assms(2) m1 by simp
  from assms(5) lastin have "now - windowDuration rl < last ts" by blast
  with assms(3) have d4: "now - cleanupInterval rl1 \<le> lastSeen ?st"
    using i1 by simp
  from Allow_deny[OF c1 d2 d3 d4]
  obtain rl2 where deny: "Allow rl1 now c = Inr (False, rl2)"
    and c2: "clients rl2 c = Some ?st" and s2: "same_config rl1 rl2" by blast
  from s2 w1 m1 have w2: "windowDuration rl2 = windowDuration rl"
    and m2: "maxRequests rl2 = maxRequests rl"
    by (simp_all add: same_config_def)
  have e1: "\<forall>x\<in>set (recorded rl2 c). x \<le> later - windowDuration rl2"
    using assms(6) c2 w2 by (simp add: recorded_def)
  have e2: "0 < maxRequests rl2" using assms(1) m2 by simp
  from Allow_expired[OF e1 e2]
  obtain rl3 where again: "Allow rl2 later c = Inr (True, rl3)" by blast
  from run c1 deny c2 again show ?thesis by auto
qed

text \<open>The amended statement for a limiter of 2 requests per minute: calls at seconds 1
  and 2 are admitted, the call at second 3 is denied, the call at minute 2 is admitted.\<close>

theorem limit_then_window_witness:
  "\<exists>rl1 rl2 rl3.
      AllowMany (NewRateLimiter 2 Minute 0) ''c'' [Second, 2 * Second] = Inr ([True, True], rl1)
    \<and> clients rl1 ''c'' = Some \<lparr>requests = [Second, 2 * Second], lastSeen = 2 * Second\<rparr>
    \<and> Allow rl1 (3 * Second) ''c'' = Inr (False, rl2)
    \<and> clients rl2 ''c'' = clients rl1 ''c''
    \<and> Allow rl2 (2 * Minute) ''c'' = Inr (True, rl3)"
  using limit_then_window[of "NewRateLimiter 2 Minute 0" "[Second, 2 * Second]" "''c''"
      "3 * Second" "2 * Minute"]
  by (simp add: NewRateLimiter_def recorded_def Minute_def Second_def)

text \<open>
  C4 (as stated). A limiter configured with \<open>maxRequests = 0\<close> has had exactly
  \<open>maxRequests\<close> admitted calls from the start; it denies the next call, and it still
  denies a call made after the window has elapsed, where the claim says the call returns
  true again.
\<close>

theorem zero_capacity_never_allows:
  "map_sum id fst (AllowMany (NewRateLimiter 0 Minute 0) ''c'' [0, 2 * Minute]) = Inr [False, False]"
  by (simp add: NewRateLimiter_def Allow_def cleanup_def Minute_def Second_def Let_def)

text \<open>
  Outside the amended statement: with a window longer than the cleanup interval, the sweep
  inside \<open>Allow\<close> deletes a client that was last seen more than \<open>cleanupInterval\<close> ago
  although its timestamps are still inside the window. A limiter of 1 request per 10
  minutes admits a second request 6 minutes after the first.
\<close>

lemma eviction_resets_window:
  "map_sum id fst (AllowMany (NewRateLimiter 1 (10 * Minute) 0) ''c'' [0, 6 * Minute]) = Inr [True, True]
   \<and> 6 * Minute - 0 < 10 * Minute"
  by (simp add: NewRateLimiter_def Allow_def cleanup_def Minute_def Second_def Let_def)


subsection \<open>The invariant\<close>

lemma filter_filter_le: "length (filter P (filter Q xs)) \<le> length (filter P xs)"
  by (induction xs) auto

lemma window_invariant_cleanup: "window_invariant rl \<Longrightarrow> window_invariant (cleanup rl now)"
  unfolding window_invariant_def
  by (auto dest!: cleanup_clients)

lemma window_invariant_lastCleanup:
  "window_invariant (rl\<lparr>lastCleanup := x\<rparr>) = window_invariant rl"
  by (simp add: window_invariant_def)

lemma window_invariant_update:
  assumes "window_invariant rl"
    and "\<forall>T. int (length (filter (inWindow (windowDuration rl) T) (requests st))) \<le> maxRequests rl"
  shows "window_invariant (rl\<lparr>clients := (clients rl)(c \<mapsto> st)\<rparr>)"
  using assms unfolding window_invariant_def by auto

lemma window_invariant_Allow:
  assumes inv: "window_invariant rl" and run: "Allow rl now c = Inr (b, rl')"
  shows "window_invariant rl'"
proof -
  define rl1 where "rl1 = (if now - lastCleanup rl > cleanupInterval rl
                 then (cleanup rl now)\<lparr>lastCleanup := now\<rparr> else rl)"
  have inv1: "window_invariant rl1"
    using inv by (simp add: rl1_def window_invariant_lastCleanup window_invariant_cleanup)
  define w where "w = windowDuration rl1"
  define m where "m = maxRequests rl1"
  obtain state where st: "(case clients rl1 c of Some state \<Rightarrow> Inr state
               | None \<Rightarrow> if maxRequests rl1 < 0 then Inl PanicMakeslice
                   else Inr \<lparr>requests = [], lastSeen = now\<rparr>) = Inr state"
    using run unfolding Allow_def rl1_def[symmetric] Let_def
    by (cases "(case clients rl1 c of Some state \<Rightarrow> Inr state
               | None \<Rightarrow> if maxRequests rl1 < 0 then Inl PanicMakeslice
                   else Inr \<lparr>requests = [], lastSeen = now\<rparr>)") auto
  have bound: "int (length (filter (inWindow w T) (requests state))) \<le> m" for T
  proof (cases "clients rl1 c")
    case None
    with st have "state = \<lparr>requests = [], lastSeen = now\<rparr>" "0 \<le> maxRequests rl1"
      by (auto split: if_splits)
    then show ?thesis by (simp add: m_def)
  next
    case (Some s)
    with st have "state = s" by simp
    with Some inv1 show ?thesis unfolding window_invariant_def w_def m_def by blast
  qed
  define valid where "valid = filter (\<lambda>reqTime. reqTime > now - w) (requests state)"
  have vb: "int (length (filter (inWindow w T) valid)) \<le> m" for T
  proof -
    have "length (filter (inWindow w T) valid) \<le> length (filter (inWindow w T) (requests state))"
      unfolding valid_def by (rule filter_filter_le)
    with bound[of T] show ?thesis by linarith
  qed
  from run st have res: "rl' = (if int (length valid) \<ge> m
        then rl1\<lparr>clients := (clients rl1)(c \<mapsto> state\<lparr>requests := valid\<rparr>)\<rparr>
        else rl1\<lparr>clients := (clients rl1)(c \<mapsto> state\<lparr>requests := valid @ [now], lastSeen := now\<rparr>)\<rparr>)"
    unfolding Allow_def rl1_def[symmetric] Let_def valid_def w_def m_def
    by (auto split: if_splits)
  show ?thesis
  proof (cases "int (length valid) \<ge> m")
    case True
    with res have "rl' = rl1\<lparr>clients := (clients rl1)(c \<mapsto> state\<lparr>requests := valid\<rparr>)\<rparr>" by simp
    moreover have "window_invariant (rl1\<lparr>clients := (clients rl1)(c \<mapsto> state\<lparr>requests := valid\<rparr>)\<rparr>)"
      by (rule window_invariant_update[OF inv1]) (use vb in \<open>simp add: w_def m_def\<close>)
    ultimately show ?thesis by simp
  next
    case False
    with res have r: "rl' = rl1\<lparr>clients := (clients rl1)(c \<mapsto> state\<lparr>requests := valid @ [now], lastSeen := now\<rparr>)\<rparr>"
      by simp
    have "int (length (filter (inWindow w T) (valid @ [now]))) \<le> m" for T
    proof -
      have "length (filter (inWindow w T) (valid @ [now])) \<le> length (valid @ [now])"
        by (rule length_filter_le)
      with False show ?thesis by simp
    qed
    then have "window_invariant (rl1\<lparr>clients := (clients rl1)(c \<mapsto> state\<lparr>requests := valid @ [now], lastSeen := now\<rparr>)\<rparr>)"
      by (intro window_invariant_update[OF inv1]) (simp add: w_def m_def)
    with r show ?thesis by simp
  qed
qed

lemma Allow_returns:
  assumes "0 \<le> maxRequests rl"
  shows "\<exists>b rl'. Allow rl now c = Inr (b, rl')"
proof -
  let ?rl1 = "if now - lastCleanup rl > cleanupInterval rl
                 then (cleanup rl now)\<lparr>lastCleanup := now\<rparr> else rl"
  have "maxRequests ?rl1 = maxRequests rl" by simp
  with assms show ?thesis
    by (cases "clients ?rl1 c") (auto simp: Allow_def Let_def)
qed

lemma Allow_last_slot:
  assumes "int (length (filter (\<lambda>t. now - windowDuration rl < t) (recorded rl c))) = maxRequests rl - 1"
    and "\<forall>st. clients rl c = Some st \<longrightarrow> now - cleanupInterval rl \<le> lastSeen st"
  shows "\<exists>rl1. Allow rl now c = Inr (True, rl1)
           \<and> clients rl1 c = Some \<lparr>requests = filter (\<lambda>t. now - windowDuration rl < t) (recorded rl c) @ [now],
                                   lastSeen = now\<rparr>
           \<and> same_config rl rl1"
proof -
  let ?rl1 = "if now - lastCleanup rl > cleanupInterval rl
                 then (cleanup rl now)\<lparr>lastCleanup := now\<rparr> else rl"
  have cfg: "maxRequests ?rl1 = maxRequests rl" "windowDuration ?rl1 = windowDuration rl"
    "cleanupInterval ?rl1 = cleanupInterval rl"
    by simp_all
  from assms(1) have pos: "0 < maxRequests rl" by linarith
  show ?thesis
  proof (cases "clients rl c")
    case None
    then have "clients ?rl1 c = None" by (simp add: cleanup_def Let_def)
    with None cfg pos show ?thesis
      by (simp add: Allow_def Let_def same_config_def recorded_def)
  next
    case (Some st)
    with assms(2) have "now - cleanupInterval rl \<le> lastSeen st" by simp
    with Some have c1: "clients ?rl1 c = Some st" by (simp add: cleanup_keeps)
    from assms(1) Some have
      "\<not> maxRequests rl \<le> int (length (filter (\<lambda>t. now - windowDuration rl < t) (requests st)))"
      by (simp add: recorded_def)
    with c1 cfg Some show ?thesis
      by (simp add: Allow_def Let_def same_config_def recorded_def)
  qed
qed

lemma last_slot_once:
  assumes "int (length (filter (\<lambda>t. now - windowDuration rl < t) (recorded rl c))) = maxRequests rl - 1"
    and "\<forall>st. clients rl c = Some st \<longrightarrow> now - cleanupInterval rl \<le> lastSeen st"
    and "\<forall>t\<in>set (recorded rl c). now - windowDuration rl < t \<longrightarrow> now2 - windowDuration rl < t"
    and "now2 - windowDuration rl < now" and "now2 - cleanupInterval rl \<le> now"
  shows "\<exists>rl1 rl2. Allow rl now c = Inr (True, rl1) \<and> Allow rl1 now2 c = Inr (False, rl2)"
proof -
  let ?v = "filter (\<lambda>t. now - windowDuration rl < t) (recorded rl c)"
  let ?st1 = "\<lparr>requests = ?v @ [now], lastSeen = now\<rparr>"
  from Allow_last_slot[OF assms(1,2)]
  obtain rl1 where a: "Allow rl now c = Inr (True, rl1)"
    and c1: "clients rl1 c = Some ?st1" and s1: "same_config rl rl1" by blast
  from s1 have w1: "windowDuration rl1 = windowDuration rl"
    and m1: "maxRequests rl1 = maxRequests rl"
    and i1: "cleanupInterval rl1 = cleanupInterval rl"
    by (simp_all add: same_config_def)
  have d2: "\<forall>t\<in>set (requests ?st1). now2 - windowDuration rl1 < t"
    using assms(3,4) w1 by auto
  have d3: "maxRequests rl1 \<le> int (length (requests ?st1))"
    using assms(1) m1 by simp
  have d4: "now2 - cleanupInterval rl1 \<le> lastSeen ?st1"
    using assms(5) i1 by simp
  from Allow_deny[OF c1 d2 d3 d4] obtain rl2 where "Allow rl1 now2 c = Inr (False, rl2)" by blast
  with a show ?thesis by blast
qed

text \<open>
  What does hold. The bound on the timestamps that are stored, "for every client and every
  trailing window of length \<open>windowDuration\<close>, at most \<open>maxRequests\<close> of the client's stored
  timestamps lie in the window", holds for a new limiter and is preserved by \<open>Allow\<close>
  (whenever it returns, and it returns whenever \<open>maxRequests \<ge> 0\<close>), by \<open>cleanup\<close>, by a round
  of the cleanup loop and by \<open>Reset\<close>. Each \<open>Allow\<close> is one atomic step, so two concurrent
  calls for one client are two steps in some order; when exactly one slot is left for the
  client at the first step, the second step sees the same window contents, and no sweep
  deletes the client, the first is admitted and the second is denied. The last condition
  is not one the limiter guarantees, as the evaluation after this lemma shows.
\<close>

lemma window_invariant_preserved:
  "window_invariant (NewRateLimiter m w t0)
   \<and> (window_invariant rl \<longrightarrow>
        (\<forall>b rl'. Allow rl now c = Inr (b, rl') \<longrightarrow> window_invariant rl')
        \<and> window_invariant (cleanup rl now)
        \<and> window_invariant (cleanupTick rl now)
        \<and> window_invariant (Reset rl))
   \<and> (0 \<le> maxRequests rl \<longrightarrow> (\<exists>b rl'. Allow rl now c = Inr (b, rl')))
   \<and> (int (length (filter (\<lambda>t. now - windowDuration rl < t) (recorded rl c))) = maxRequests rl - 1
        \<and> (\<forall>st. clients rl c = Some st \<longrightarrow> now - cleanupInterval rl \<le> lastSeen st)
        \<and> (\<forall>t\<in>set (recorded rl c). now - windowDuration rl < t \<longrightarrow> now2 - windowDuration rl < t)
        \<and> now2 - windowDuration rl < now \<and> now2 - cleanupInterval rl \<le> now
      \<longrightarrow> (\<exists>rl1 rl2. Allow rl now c = Inr (True, rl1) \<and> Allow rl1 now2 c = Inr (False, rl2)))"
proof -
  have a: "window_invariant (NewRateLimiter m w t0)"
    by (simp add: window_invariant_def NewRateLimiter_def)
  have b: "window_invariant (Reset rl)"
    by (simp add: window_invariant_def Reset_def)
  have c: "window_invariant rl \<Longrightarrow> window_invariant (cleanupTick rl now)"
    by (simp add: cleanupTick_def window_invariant_lastCleanup window_invariant_cleanup)
  from a b c window_invariant_Allow window_invariant_cleanup Allow_returns last_slot_once
  show ?thesis by blast
qed

text \<open>The invariant and the last-slot property at a limiter of 1 request per minute.\<close>

lemma window_invariant_preserved_instance:
  "window_invariant (NewRateLimiter 1 Minute 0)
   \<and> (\<exists>b rl'. Allow (NewRateLimiter 1 Minute 0) (5 * Second) ''c'' = Inr (b, rl') \<and> window_invariant rl')
   \<and> window_invariant (cleanupTick (NewRateLimiter 1 Minute 0) (5 * Second))
   \<and> (\<exists>rl1 rl2. Allow (NewRateLimiter 1 Minute 0) (5 * Second) ''c'' = Inr (True, rl1)
          \<and> Allow rl1 (5 * Second + 1) ''c'' = Inr (False, rl2))"
  using window_invariant_preserved[of 1 Minute 0 "NewRateLimiter 1 Minute 0" "5 * Second" "''c''"
      "5 * Second + 1"]
  by (simp add: NewRateLimiter_def recorded_def Minute_def Second_def) blast

text \<open>
  C5 (evaluation at the failing input). A limiter of 2 requests per 10 minutes is created
  at time 0 and client \<open>c\<close> calls \<open>Allow\<close> at time 0. The call is admitted and the client's
  state holds the one timestamp 0, so for a call at minute 6 (and one nanosecond later)
  exactly one slot of the window is left. Two further calls, at minute 6 and one
  nanosecond after it, are nevertheless both admitted: at minute 6 the sweep inside
  \<open>Allow\<close> is due and deletes the client, last seen more than \<open>cleanupInterval\<close> ago, with the
  timestamp that is still inside the window. Three calls are admitted within one window of
  a limiter of two, and two calls are both admitted on the last slot. The same happens
  when the background loop sweeps in between (a round at 5 minutes and 1 nanosecond, then
  two calls). The stored timestamps stay within the bound only because the record of the
  first admission is lost.
\<close>

theorem last_slot_admitted_twice_after_eviction:
  "map_sum id fst (AllowMany (NewRateLimiter 2 (10 * Minute) 0) ''c'' [0, 6 * Minute, 6 * Minute + 1])
     = Inr [True, True, True]
   \<and> (case Allow (NewRateLimiter 2 (10 * Minute) 0) 0 ''c'' of
         Inl e \<Rightarrow> False
       | Inr (b, rl1) \<Rightarrow>
           b \<and> recorded rl1 ''c'' = [0] \<and> maxRequests rl1 = 2
           \<and> windowDuration rl1 = 10 * Minute
           \<and> int (length (filter (\<lambda>t. 6 * Minute - windowDuration rl1 < t) (recorded rl1 ''c'')))
               = maxRequests rl1 - 1
           \<and> int (length (filter (\<lambda>t. 6 * Minute + 1 - windowDuration rl1 < t) (recorded rl1 ''c'')))
               = maxRequests rl1 - 1
           \<and> map_sum id fst (AllowMany rl1 ''c'' [6 * Minute, 6 * Minute + 1]) = Inr [True, True]
           \<and> map_sum id fst (AllowMany (cleanupTick rl1 (5 * Minute + 1)) ''c''
                               [5 * Minute + 2, 5 * Minute + 3]) = Inr [True, True])"
  by (simp add: NewRateLimiter_def Allow_def cleanup_def cleanupTick_def recorded_def Minute_def
      Second_def Let_def)

section \<open>Properties of the credential vault and store\<close>

subsection \<open>Keys\<close>

lemma NewFileKeyring_masterKey:
  assumes "NewFileKeyring L kFile db rnd fs = Inr (k, fs')"
  shows "masterKey k = Some (sha256_sum L (db @ ''beads-federation-key-v1'')) \<and> keyFile k = kFile
         \<and> files fs' kFile \<noteq> None"
  using assms
  by (auto simp: NewFileKeyring_def deriveKeyFromDBPath_def os_ReadFile_def os_MkdirAll_def
      os_WriteFile_def Let_def split: sum.splits option.splits if_splits)

lemma pad32_length: "length (pad32 m) = 32"
  by (simp add: pad32_def min_def)

lemma demo_contract: "lib_contract demo_lib"
  by (simp add: lib_contract_def demo_lib_def pad32_length demo_open_def)

text \<open>
  C8 (amended). A keyring that \<open>NewFileKeyring\<close> returns for a database path has the digest
  of that path and the fixed salt as its master key, whether the key file existed or was
  created, so two keyrings built independently for one path return the same bytes for
  \<^verbatim>\<open>dolt-credentials\<close>. \<open>GetKey\<close> returns the master key verbatim for the service
  \<^verbatim>\<open>dolt-credentials\<close> and every user, and for every other service it returns the digest
  of master key, service, a colon and the user.
\<close>

theorem GetKey_cases:
  "(NewFileKeyring L kFile db rnd fs = Inr (k0, fs') \<longrightarrow>
       GetKey L k0 ''dolt-credentials'' db = Inr (masterKey k0)
     \<and> masterKey k0 = Some (sha256_sum L (db @ ''beads-federation-key-v1'')))
   \<and> (NewFileKeyring L kFile1 db rnd1 fs1 = Inr (k1, fs1')
        \<and> NewFileKeyring L kFile2 db rnd2 fs2 = Inr (k2, fs2') \<longrightarrow>
       GetKey L k1 ''dolt-credentials'' db = GetKey L k2 ''dolt-credentials'' db)
   \<and> GetKey L k ''dolt-credentials'' user = Inr (masterKey k)
   \<and> (service \<noteq> ''dolt-credentials'' \<and> masterKey k = Some mk \<longrightarrow>
       GetKey L k service user = Inr (Some (sha256_sum L (mk @ service @ '':'' @ user))))"
  by (auto simp: GetKey_def dest!: NewFileKeyring_masterKey)

text \<open>The amended statement at a keyring created on an empty file system, and at a
  service other than \<^verbatim>\<open>dolt-credentials\<close>.\<close>

theorem GetKey_cases_witness:
  "(\<exists>k0 fs'. NewFileKeyring demo_lib ''/d/keyring'' ''/d/db'' (Some (\<lambda>i. CHR ''r''))
        \<lparr>files = Map.empty, denied = {}\<rparr> = Inr (k0, fs')
      \<and> GetKey demo_lib k0 ''dolt-credentials'' ''/d/db''
          = Inr (Some (sha256_sum demo_lib ''/d/dbbeads-federation-key-v1'')))
   \<and> GetKey demo_lib \<lparr>keyFile = ''/d/keyring'', masterKey = Some ''mk''\<rparr> ''svc'' ''amy''
       = Inr (Some (sha256_sum demo_lib ''mksvc:amy''))"
proof -
  obtain k0 fs' where n: "NewFileKeyring demo_lib ''/d/keyring'' ''/d/db'' (Some (\<lambda>i. CHR ''r''))
        \<lparr>files = Map.empty, denied = {}\<rparr> = Inr (k0, fs')"
    by (simp add: NewFileKeyring_def os_ReadFile_def rand_Read_def os_MkdirAll_def
        os_WriteFile_def Let_def)
  from GetKey_cases[where L = demo_lib and kFile = "''/d/keyring''" and db = "''/d/db''"
      and rnd = "Some (\<lambda>i. CHR ''r'')" and fs = "\<lparr>files = Map.empty, denied = {}\<rparr>"
      and ?k0.0 = k0 and fs' = fs'] n
  have a: "GetKey demo_lib k0 ''dolt-credentials'' ''/d/db''
          = Inr (Some (sha256_sum demo_lib ''/d/dbbeads-federation-key-v1''))"
    by simp
  from GetKey_cases[where L = demo_lib
      and k = "\<lparr>keyFile = ''/d/keyring'', masterKey = Some ''mk''\<rparr>"
      and service = "''svc''" and mk = "''mk''" and user = "''amy''"]
  have b: "GetKey demo_lib \<lparr>keyFile = ''/d/keyring'', masterKey = Some ''mk''\<rparr> ''svc'' ''amy''
       = Inr (Some (sha256_sum demo_lib ''mksvc:amy''))"
    by simp
  from n a b show ?thesis by blast
qed

text \<open>
  C8 (as stated). The pair (\<^verbatim>\<open>dolt-credentials\<close>, \<open>amy\<close>) is another pair than
  (\<^verbatim>\<open>dolt-credentials\<close>, database path), yet \<open>GetKey\<close> returns the master key itself for
  it, not the digest of master key, service and user: the code tests the service only.
\<close>

theorem GetKey_ignores_user:
  "GetKey demo_lib \<lparr>keyFile = ''/d/keyring'',
       masterKey = Some (deriveKeyFromDBPath demo_lib ''/d/db'' None)\<rparr> ''dolt-credentials'' ''amy''
     = Inr (Some (deriveKeyFromDBPath demo_lib ''/d/db'' None))
   \<and> (''dolt-credentials'', ''amy'') \<noteq> (''dolt-credentials'', ''/d/db'')
   \<and> GetKey demo_lib \<lparr>keyFile = ''/d/keyring'',
       masterKey = Some (deriveKeyFromDBPath demo_lib ''/d/db'' None)\<rparr> ''dolt-credentials'' ''amy''
     \<noteq> Inr (Some (sha256_sum demo_lib
            (deriveKeyFromDBPath demo_lib ''/d/db'' None @ ''dolt-credentials'' @ '':'' @ ''amy'')))"
  by (simp add: GetKey_def deriveKeyFromDBPath_def demo_lib_def pad32_def)

text \<open>
  C10. For every database path and every keyring that \<open>NewFileKeyring\<close> returns for it,
  the keyring's key for \<^verbatim>\<open>dolt-credentials\<close> and the key that \<open>encryptionKey\<close> computes
  without a keyring are the same bytes, the digest of the path followed by
  \<^verbatim>\<open>beads-federation-key-v1\<close>; a store with that keyring and a store without one have the
  same encryption key, encrypt every password to the same bytes under the same nonce, and
  decrypt every ciphertext to the same result.
\<close>

theorem keyring_key_is_legacy_key:
  "(NewFileKeyring L kFile db rnd fs = Inr (k, fs') \<longrightarrow>
       GetKey L k ''dolt-credentials'' db = Inr (Some (sha256_sum L (db @ ''beads-federation-key-v1'')))
     \<and> encryptionKey L \<lparr>dbPath = db, keyring = None\<rparr>
         = Inr (sha256_sum L (db @ ''beads-federation-key-v1''))
     \<and> encryptionKey L \<lparr>dbPath = db, keyring = Some k\<rparr>
         = encryptionKey L \<lparr>dbPath = db, keyring = None\<rparr>
     \<and> encryptPassword L \<lparr>dbPath = db, keyring = Some k\<rparr> rnd1 p
         = encryptPassword L \<lparr>dbPath = db, keyring = None\<rparr> rnd1 p
     \<and> decryptPassword L \<lparr>dbPath = db, keyring = Some k\<rparr> c
         = decryptPassword L \<lparr>dbPath = db, keyring = None\<rparr> c)"
proof
  assume n: "NewFileKeyring L kFile db rnd fs = Inr (k, fs')"
  from NewFileKeyring_masterKey[OF n]
  have mk: "masterKey k = Some (sha256_sum L (db @ ''beads-federation-key-v1''))" by simp
  then have g: "GetKey L k ''dolt-credentials'' db
      = Inr (Some (sha256_sum L (db @ ''beads-federation-key-v1'')))"
    by (simp add: GetKey_def)
  have l: "encryptionKey L \<lparr>dbPath = db, keyring = None\<rparr>
         = Inr (sha256_sum L (db @ ''beads-federation-key-v1''))"
    by (simp add: encryptionKey_def)
  have e: "encryptionKey L \<lparr>dbPath = db, keyring = Some k\<rparr>
         = encryptionKey L \<lparr>dbPath = db, keyring = None\<rparr>"
    using g by (simp add: encryptionKey_def)
  from g l e show "GetKey L k ''dolt-credentials'' db = Inr (Some (sha256_sum L (db @ ''beads-federation-key-v1'')))
     \<and> encryptionKey L \<lparr>dbPath = db, keyring = None\<rparr>
         = Inr (sha256_sum L (db @ ''beads-federation-key-v1''))
     \<and> encryptionKey L \<lparr>dbPath = db, keyring = Some k\<rparr>
         = encryptionKey L \<lparr>dbPath = db, keyring = None\<rparr>
     \<and> encryptPassword L \<lparr>dbPath = db, keyring = Some k\<rparr> rnd1 p
         = encryptPassword L \<lparr>dbPath = db, keyring = None\<rparr> rnd1 p
     \<and> decryptPassword L \<lparr>dbPath = db, keyring = Some k\<rparr> c
         = decryptPassword L \<lparr>dbPath = db, keyring = None\<rparr> c"
    by (simp add: encryptPassword_def decryptPassword_def)
qed


text \<open>The statement at a keyring opened from an existing marker file.\<close>

theorem keyring_key_is_legacy_key_witness:
  "\<exists>k fs'. NewFileKeyring demo_lib ''/d/keyring'' ''/d/db'' None
        \<lparr>files = [''/d/keyring'' \<mapsto> (''BEADS_KEYRING_V1'', perm_0600)], denied = {}\<rparr> = Inr (k, fs')
     \<and> GetKey demo_lib k ''dolt-credentials'' ''/d/db''
         = Inr (Some (sha256_sum demo_lib ''/d/dbbeads-federation-key-v1''))
     \<and> encryptionKey demo_lib \<lparr>dbPath = ''/d/db'', keyring = Some k\<rparr>
         = encryptionKey demo_lib \<lparr>dbPath = ''/d/db'', keyring = None\<rparr>"
proof -
  obtain k fs' where n: "NewFileKeyring demo_lib ''/d/keyring'' ''/d/db'' None
        \<lparr>files = [''/d/keyring'' \<mapsto> (''BEADS_KEYRING_V1'', perm_0600)], denied = {}\<rparr> = Inr (k, fs')"
    by (simp add: NewFileKeyring_def os_ReadFile_def Let_def)
  from keyring_key_is_legacy_key[where L = demo_lib and kFile = "''/d/keyring''" and db = "''/d/db''"
      and rnd = None
      and fs = "\<lparr>files = [''/d/keyring'' \<mapsto> (''BEADS_KEYRING_V1'', perm_0600)], denied = {}\<rparr>"
      and k = k and fs' = fs'] n
  show ?thesis by simp
qed

subsection \<open>Round trip\<close>

lemma encryptionKey_valid:
  assumes "lib_contract L"
    and "\<forall>k m. keyring s = Some k \<and> masterKey k = Some m \<longrightarrow> aes_key_ok m"
  shows "\<exists>key. encryptionKey L s = Inr key \<and> aes_key_ok key"
proof (cases "keyring s")
  case None
  with assms(1) show ?thesis
    by (simp add: encryptionKey_def lib_contract_def aes_key_ok_def)
next
  case (Some k)
  show ?thesis
  proof (cases "masterKey k")
    case None
    with Some assms(1) show ?thesis
      by (simp add: encryptionKey_def GetKey_def lib_contract_def aes_key_ok_def)
  next
    case (Some m)
    with \<open>keyring s = Some k\<close> assms(2) have "aes_key_ok m" by blast
    with Some \<open>keyring s = Some k\<close> show ?thesis
      by (simp add: encryptionKey_def GetKey_def)
  qed
qed

lemma rand_Read_length: "rand_Read rnd n = Some bs \<Longrightarrow> length bs = n"
  by (auto simp: rand_Read_def split: option.splits)

lemma decrypt_encrypt:
  assumes "lib_contract L" and "encryptPassword L s rnd p = Inr c"
  shows "decryptPassword L s c = Inr p"
proof (cases "p = []")
  case True
  with assms(2) show ?thesis
    by (simp add: encryptPassword_def decryptPassword_def slice_len_def)
next
  case False
  with assms(2) obtain key nonce where k: "encryptionKey L s = Inr key" and ok: "aes_key_ok key"
    and r: "rand_Read rnd gcm_NonceSize = Some nonce"
    and c: "c = Some (nonce @ gcm_seal L key nonce p)"
    by (auto simp: encryptPassword_def split: sum.splits if_splits option.splits)
  from r have len: "length nonce = 12"
    by (simp add: rand_Read_length gcm_NonceSize_def)
  from assms(1) have op: "gcm_open L key nonce (gcm_seal L key nonce p) = Some p"
    by (simp add: lib_contract_def)
  from k ok c len op show ?thesis
    by (simp add: decryptPassword_def slice_len_def gcm_NonceSize_def)
qed

text \<open>
  C7. Under the library's contract, for every store, every random source and every
  password: encrypting the empty password gives \<^verbatim>\<open>nil\<close>, decrypting \<^verbatim>\<open>nil\<close> gives the
  empty password, and whatever \<open>encryptPassword\<close> returns for a password decrypts to that
  password; encryption does return a ciphertext whenever the random source delivers
  and the keyring's master key, if there is one, has an AES key length.
\<close>

theorem password_round_trip:
  assumes "lib_contract L"
  shows "encryptPassword L s rnd [] = Inr None
       \<and> decryptPassword L s None = Inr []
       \<and> (encryptPassword L s rnd p = Inr c \<longrightarrow> decryptPassword L s c = Inr p)
       \<and> (rnd \<noteq> None \<and> (\<forall>k m. keyring s = Some k \<and> masterKey k = Some m \<longrightarrow> aes_key_ok m)
            \<longrightarrow> (\<exists>c. encryptPassword L s rnd p = Inr c))"
proof -
  have a: "encryptPassword L s rnd [] = Inr None" by (simp add: encryptPassword_def)
  have b: "decryptPassword L s None = Inr []" by (simp add: decryptPassword_def slice_len_def)
  have d: "\<exists>c. encryptPassword L s rnd p = Inr c"
    if "rnd \<noteq> None" "\<forall>k m. keyring s = Some k \<and> masterKey k = Some m \<longrightarrow> aes_key_ok m"
  proof -
    from encryptionKey_valid[OF assms that(2)]
    obtain key where "encryptionKey L s = Inr key" "aes_key_ok key" by blast
    with that(1) show ?thesis
      by (auto simp: encryptPassword_def rand_Read_def)
  qed
  from a b d decrypt_encrypt[OF assms] show ?thesis by blast
qed

text \<open>The round trip of the password \<open>hunter2\<close> in a store without a keyring.\<close>

theorem password_round_trip_witness:
  "encryptPassword demo_lib \<lparr>dbPath = ''/d/db'', keyring = None\<rparr> (Some (\<lambda>i. CHR ''n'')) [] = Inr None
   \<and> (\<exists>c. encryptPassword demo_lib \<lparr>dbPath = ''/d/db'', keyring = None\<rparr> (Some (\<lambda>i. CHR ''n''))
            ''hunter2'' = Inr c
          \<and> c \<noteq> None
          \<and> decryptPassword demo_lib \<lparr>dbPath = ''/d/db'', keyring = None\<rparr> c = Inr ''hunter2'')"
proof -
  let ?s = "\<lparr>dbPath = ''/d/db'', keyring = None\<rparr>"
  let ?r = "Some (\<lambda>i::nat. CHR ''n'')"
  note rt = password_round_trip[OF demo_contract, of ?s ?r "''hunter2''"]
  from rt have e: "encryptPassword demo_lib ?s ?r [] = Inr None" by blast
  from rt obtain c where c: "encryptPassword demo_lib ?s ?r ''hunter2'' = Inr c" by auto
  with rt[of c] have d: "decryptPassword demo_lib ?s c = Inr ''hunter2''" by blast
  from c have "c \<noteq> None"
    by (auto simp: encryptPassword_def split: sum.splits if_splits option.splits)
  with e c d show ?thesis by blast
qed


subsection \<open>Scoped credential injection\<close>










end
